theory Spec2Isabelle
  imports Complex_Main "HOL-Library.AList"
begin

section \<open>The platform: JavaScript time values and the Date methods the program calls\<close>

text \<open>
  A \<^verbatim>\<open>Date\<close> is a time value: a number of milliseconds since 1 January 1970. The
  program stores dates as ISO strings (\<^verbatim>\<open>toISOString()\<close>) and reads them back with
  \<^verbatim>\<open>new Date(str)\<close>, which is the identity on time values, and inspects them only
  through the local-time methods. The model therefore keeps a date as its time
  value in local time (a fixed offset from UTC; no daylight-saving shift), as an
  integer. Outside the model are invalid dates (\<^verbatim>\<open>NaN\<close>), the limit of 8.64e15
  milliseconds on a time value, and the years 0 to 99, which the Date constructor
  reads as 1900 to 1999.

  The calendar is the proleptic Gregorian one. Months are counted by a month index
  \<open>k\<close> relative to January 1970 (\<open>k = 12 * (year - 1970) + month\<close>), so that the
  month overflow of the Date constructor is plain integer arithmetic.
\<close>

type_synonym jsdate = int

definition msPerDay :: int where
  "msPerDay = 86400000"

definition is_leap :: "int \<Rightarrow> bool" where
  "is_leap y = (y mod 4 = 0 \<and> (y mod 100 \<noteq> 0 \<or> y mod 400 = 0))"

definition days_in_month :: "int \<Rightarrow> int \<Rightarrow> int" where
  \<comment> \<open>year, month number 0..11\<close>
  "days_in_month y m =
     (if m = 1 then (if is_leap y then 29 else 28)
      else if m = 3 \<or> m = 5 \<or> m = 8 \<or> m = 10 then 30
      else 31)"

definition month_len :: "int \<Rightarrow> int" where
  "month_len k = days_in_month (1970 + k div 12) (k mod 12)"

lemma month_len_bounds: "28 \<le> month_len k \<and> month_len k \<le> 31"
  by (simp add: month_len_def days_in_month_def)

text \<open>Day number (days since the epoch) of the first day of month \<open>k\<close>.\<close>

function first_day :: "int \<Rightarrow> int" where
  "first_day k =
     (if k = 0 then 0
      else if 0 < k then first_day (k - 1) + month_len (k - 1)
      else first_day (k + 1) - month_len k)"
  by pat_completeness auto
termination
  by (relation "measure (\<lambda>k. nat \<bar>k\<bar>)") auto

declare first_day.simps [simp del]

text \<open>
  \<open>roll k d\<close> normalises "day \<open>d\<close> of month \<open>k\<close>", where \<open>d\<close> is any integer, to a real
  calendar day: days past the end of the month roll into the following months, days
  before the first roll back into the preceding ones (ECMAScript's MakeDay followed
  by MonthFromTime and DateFromTime).
\<close>

function roll :: "int \<Rightarrow> int \<Rightarrow> int \<times> int" where
  "roll k d =
     (if d < 1 then roll (k - 1) (d + month_len (k - 1))
      else if month_len k < d then roll (k + 1) (d - month_len k)
      else (k, d))"
  by pat_completeness auto
termination
proof (relation "measure (\<lambda>(k, d). if d < 1 then nat (1 - d) + 32 else nat d)")
  show "wf (measure (\<lambda>(k, d). if d < 1 then nat (1 - d) + 32 else nat d))"
    by simp
next
  fix k d :: int
  assume "d < 1"
  then show "((k - 1, d + month_len (k - 1)), (k, d))
      \<in> measure (\<lambda>(k, d). if d < 1 then nat (1 - d) + 32 else nat d)"
    using month_len_bounds [of "k - 1"] by auto
next
  fix k d :: int
  assume "\<not> d < 1" "month_len k < d"
  then show "((k + 1, d - month_len k), (k, d))
      \<in> measure (\<lambda>(k, d). if d < 1 then nat (1 - d) + 32 else nat d)"
    using month_len_bounds [of k] by auto
qed

declare roll.simps [simp del]

definition Day :: "jsdate \<Rightarrow> int" where
  "Day t = t div msPerDay"

definition TimeWithinDay :: "jsdate \<Rightarrow> int" where
  "TimeWithinDay t = t mod msPerDay"

definition civil :: "int \<Rightarrow> int \<times> int" where
  \<comment> \<open>month index and day of the month of a day number\<close>
  "civil n = roll 0 (n + 1)"

definition getFullYear :: "jsdate \<Rightarrow> int" where
  "getFullYear t = 1970 + fst (civil (Day t)) div 12"

definition getMonth :: "jsdate \<Rightarrow> int" where
  "getMonth t = fst (civil (Day t)) mod 12"

definition getDate :: "jsdate \<Rightarrow> int" where
  "getDate t = snd (civil (Day t))"

definition MakeDay :: "int \<Rightarrow> int \<Rightarrow> int \<Rightarrow> int" where
  "MakeDay y m dt = first_day (12 * (y - 1970) + m) + dt - 1"

definition MakeTime :: "int \<Rightarrow> int \<Rightarrow> int \<Rightarrow> int \<Rightarrow> int" where
  "MakeTime h mi s ms = h * 3600000 + mi * 60000 + s * 1000 + ms"

definition MakeDate :: "int \<Rightarrow> int \<Rightarrow> jsdate" where
  "MakeDate dy tm = dy * msPerDay + tm"

definition newDate :: "int \<Rightarrow> int \<Rightarrow> int \<Rightarrow> int \<Rightarrow> int \<Rightarrow> int \<Rightarrow> jsdate" where
  \<comment> \<open>\<^verbatim>\<open>new Date(year, month, day, hours, minutes, seconds)\<close>\<close>
  "newDate y m d h mi s = MakeDate (MakeDay y m d) (MakeTime h mi s 0)"

definition setDate :: "jsdate \<Rightarrow> int \<Rightarrow> jsdate" where
  "setDate t dt = MakeDate (MakeDay (getFullYear t) (getMonth t) dt) (TimeWithinDay t)"

definition setHours :: "jsdate \<Rightarrow> int \<Rightarrow> int \<Rightarrow> int \<Rightarrow> int \<Rightarrow> jsdate" where
  "setHours t h mi s ms = MakeDate (Day t) (MakeTime h mi s ms)"

subsection \<open>Calendar facts\<close>

lemma first_day_succ: "first_day (k + 1) = first_day k + month_len k"
proof (cases "0 \<le> k")
  case True
  then show ?thesis
    using first_day.simps [of "k + 1"] by simp
next
  case False
  then show ?thesis
    using first_day.simps [of k] by simp
qed

lemma first_day_mono_nat: "first_day k \<le> first_day (k + int n)"
proof (induction n)
  case 0
  then show ?case by simp
next
  case (Suc n)
  have "k + int (Suc n) = (k + int n) + 1" by simp
  then have "first_day (k + int (Suc n)) = first_day (k + int n) + month_len (k + int n)"
    using first_day_succ [of "k + int n"] by metis
  with Suc month_len_bounds [of "k + int n"] show ?case by linarith
qed

lemma roll_forward:
  "1 \<le> d \<Longrightarrow> d \<le> month_len (j + int n) \<Longrightarrow>
   roll j (first_day (j + int n) - first_day j + d) = (j + int n, d)"
proof (induction n arbitrary: j)
  case 0
  then show ?case
    using roll.simps [of j d] by simp
next
  case (Suc n)
  define K where "K = j + int (Suc n)"
  have eq: "K = (j + 1) + int n" by (simp add: K_def)
  let ?x = "first_day K - first_day j + d"
  have d: "1 \<le> d" "d \<le> month_len K"
    using Suc.prems by (simp_all add: K_def)
  have mono: "first_day (j + 1) \<le> first_day K"
    using first_day_mono_nat [of "j + 1" n] unfolding eq .
  have big: "month_len j < ?x"
    using mono first_day_succ [of j] d(1) by linarith
  have pos: "\<not> ?x < 1"
    using big month_len_bounds [of j] by linarith
  have arg: "?x - month_len j = first_day K - first_day (j + 1) + d"
    using first_day_succ [of j] by linarith
  have "roll j ?x = roll (j + 1) (?x - month_len j)"
    using roll.simps [of j ?x] big pos by simp
  also have "\<dots> = roll (j + 1) (first_day K - first_day (j + 1) + d)"
    by (simp only: arg)
  also have "\<dots> = (K, d)"
    using Suc.IH [of "j + 1", folded eq] d by simp
  finally show ?case unfolding K_def .
qed

lemma roll_backward:
  "1 \<le> d \<Longrightarrow> d \<le> month_len j \<Longrightarrow>
   roll (j + int n) (first_day j - first_day (j + int n) + d) = (j, d)"
proof (induction n)
  case 0
  then show ?case
    using roll.simps [of j d] by simp
next
  case (Suc n)
  define K where "K = j + int (Suc n)"
  define K' where "K' = j + int n"
  have kp: "K = K' + 1" and kq: "K = (j + 1) + int n" and km: "K - 1 = K'"
    by (simp_all add: K_def K'_def)
  let ?x = "first_day j - first_day K + d"
  have step: "first_day K = first_day K' + month_len K'"
    using first_day_succ [of K'] unfolding kp .
  have mono: "first_day (j + 1) \<le> first_day K"
    using first_day_mono_nat [of "j + 1" n] unfolding kq .
  have small: "?x < 1"
    using mono first_day_succ [of j] Suc.prems(2) by linarith
  have arg: "?x + month_len K' = first_day j - first_day K' + d"
    using step by linarith
  have "roll K ?x = roll (K - 1) (?x + month_len (K - 1))"
    using roll.simps [of K ?x] small by simp
  also have "\<dots> = roll K' (first_day j - first_day K' + d)"
    by (simp only: km arg)
  also have "\<dots> = (j, d)"
    using Suc unfolding K'_def by simp
  finally show ?case unfolding K_def .
qed

lemma civil_first_day:
  assumes "1 \<le> d" and "d \<le> month_len k"
  shows "civil (first_day k + d - 1) = (k, d)"
proof (cases "0 \<le> k")
  case True
  then have k: "k = 0 + int (nat k)" by simp
  have f0: "first_day 0 = 0" using first_day.simps [of 0] by simp
  have "roll 0 (first_day (0 + int (nat k)) - first_day 0 + d) = (0 + int (nat k), d)"
    using assms k by (intro roll_forward) simp_all
  then show ?thesis
    using k f0 by (simp add: civil_def)
next
  case False
  then have k: "0 = k + int (nat (- k))" by simp
  have f0: "first_day 0 = 0" using first_day.simps [of 0] by simp
  have "roll (k + int (nat (- k))) (first_day k - first_day (k + int (nat (- k))) + d) = (k, d)"
    using assms by (intro roll_backward) simp_all
  then show ?thesis
    using k f0 by (simp add: civil_def)
qed


section \<open>The entity store\<close>

text \<open>
  The shapes of the objects held in \<^verbatim>\<open>Store.data\<close>. An optional property is an
  \<open>option\<close>; a number that may be missing or \<^verbatim>\<open>NaN\<close> is a \<open>rat option\<close>. Money is
  exact (rational) arithmetic: the contracts are stated for exact decimals, binary
  floating point is outside the model.
\<close>

type_synonym ident = string

datatype tx_kind = Income | Expense

datatype acc_kind = Mei | Cash

datatype rule_kind = Fixed | Reminder

record transaction =
  tx_id :: ident
  createdAt :: jsdate
  tx_type :: tx_kind
  amount :: rat
  description :: "string option"
  category :: "string option"
  date :: jsdate
  accountId :: "ident option"
  isHomeExpense :: bool
  isPaid :: "bool option"
  recurringId :: "ident option"
  installmentId :: "ident option"
  isReminder :: "bool option"

record account =
  acc_id :: ident
  acc_name :: string
  acc_type :: acc_kind
  initialBalance :: "rat option"
  cnpj :: string
  acc_description :: string

record recurring_rule =
  rule_id :: ident
  title :: string
  rule_category :: string
  rule_amount :: rat
  day :: "int option"
  rule_type :: rule_kind
  active :: bool

record store_data =
  transactions :: "transaction list"
  customCategories :: "string list"
  homeCategories :: "string list"
  selectedDate :: jsdate
  selectedMonth :: jsdate
  reportFilter :: string
  reportStartDate :: string
  reportEndDate :: string
  accounts :: "account list"
  recurring :: "recurring_rule list"

text \<open>The five keys of \<^verbatim>\<open>localStorage\<close> that \<^verbatim>\<open>save()\<close> writes.\<close>

record storage =
  st_transactions :: "transaction list option"
  st_customCategories :: "string list option"
  st_homeCategories :: "string list option"
  st_accounts :: "account list option"
  st_recurring :: "recurring_rule list option"

text \<open>
  The world a mutator runs in: the store, the browser's storage, and the sequence of
  identifiers that \<^verbatim>\<open>crypto.randomUUID()\<close> returns (a stream and the position of the
  next draw). The clock (\<^verbatim>\<open>new Date()\<close>) is an argument \<open>now\<close> of the operations that
  read it.
\<close>

record world =
  data :: store_data
  localStorage :: storage
  uuid_stream :: "nat \<Rightarrow> ident"
  uuid_pos :: nat

definition randomUUID :: "world \<Rightarrow> ident \<times> world" where
  "randomUUID w = (uuid_stream w (uuid_pos w), w\<lparr>uuid_pos := Suc (uuid_pos w)\<rparr>)"

definition save :: "world \<Rightarrow> world" where
  \<comment> \<open>the re-render that follows the five writes does not touch the store\<close>
  "save w = w\<lparr>localStorage :=
     \<lparr>st_transactions = Some (transactions (data w)),
      st_customCategories = Some (customCategories (data w)),
      st_homeCategories = Some (homeCategories (data w)),
      st_accounts = Some (accounts (data w)),
      st_recurring = Some (recurring (data w))\<rparr>\<rparr>"

subsection \<open>Derived metrics\<close>

definition or_zero :: "rat option \<Rightarrow> rat" where
  \<comment> \<open>\<^verbatim>\<open>x || 0\<close> on a number that may be missing\<close>
  "or_zero x = (case x of None \<Rightarrow> 0 | Some v \<Rightarrow> v)"

definition sum_amounts :: "transaction list \<Rightarrow> rat" where
  \<comment> \<open>\<^verbatim>\<open>.reduce((acc, t) => acc + t.amount, 0)\<close>\<close>
  "sum_amounts ts = foldl (\<lambda>acc t. acc + amount t) 0 ts"

definition getAccountBalance :: "store_data \<Rightarrow> ident \<Rightarrow> rat" where
  "getAccountBalance d accountId' =
     (case find (\<lambda>a. acc_id a = accountId') (accounts d) of
        None \<Rightarrow> 0
      | Some acct \<Rightarrow>
          (let income = sum_amounts
                 (filter (\<lambda>t. accountId t = Some accountId' \<and> tx_type t = Income)
                    (transactions d));
               expenses = sum_amounts
                 (filter (\<lambda>t. accountId t = Some accountId' \<and> tx_type t = Expense)
                    (transactions d))
           in or_zero (initialBalance acct) + income - expenses))"

text \<open>
  The balance as the specification words it: the same sums, restricted to the
  transactions whose \<open>isHomeExpense\<close> flag is false.
\<close>

definition spec_accountBalance :: "store_data \<Rightarrow> ident \<Rightarrow> rat" where
  "spec_accountBalance d aid =
     (case find (\<lambda>a. acc_id a = aid) (accounts d) of
        None \<Rightarrow> 0
      | Some acct \<Rightarrow>
          or_zero (initialBalance acct)
          + sum_list (map amount
              (filter (\<lambda>t. accountId t = Some aid \<and> \<not> isHomeExpense t \<and> tx_type t = Income)
                 (transactions d)))
          - sum_list (map amount
              (filter (\<lambda>t. accountId t = Some aid \<and> \<not> isHomeExpense t \<and> tx_type t = Expense)
                 (transactions d))))"

datatype limit_state = Safe | Warning | Critical

record limit_status =
  total' :: rat
  limitSafe :: rat
  limitMax :: rat
  status :: limit_state
  percent :: rat

definition getAccountLimitStatus :: "jsdate \<Rightarrow> store_data \<Rightarrow> ident \<Rightarrow> limit_status option" where
  "getAccountLimitStatus now d accountId' =
     (case find (\<lambda>a. acc_id a = accountId') (accounts d) of
        None \<Rightarrow> None
      | Some acct \<Rightarrow>
          if acc_type acct \<noteq> Mei then None
          else
            (let currentYear = getFullYear now;
                 yearIncome = sum_amounts
                   (filter (\<lambda>t. accountId t = Some accountId' \<and> tx_type t = Income
                               \<and> getFullYear (date t) = currentYear)
                      (transactions d));
                 tot = or_zero (initialBalance acct) + yearIncome;
                 limSafe = 81000;
                 limMax = 97200;
                 st = (if tot > limMax then Critical
                       else if tot > limSafe then Warning else Safe)
             in Some \<lparr>total' = tot, limitSafe = limSafe, limitMax = limMax,
                       status = st, percent = (tot / limSafe) * 100\<rparr>))"

definition getAccountMonthlyStatus :: "jsdate \<Rightarrow> store_data \<Rightarrow> ident \<Rightarrow> limit_status option" where
  "getAccountMonthlyStatus now d accountId' =
     (case find (\<lambda>a. acc_id a = accountId') (accounts d) of
        None \<Rightarrow> None
      | Some acct \<Rightarrow>
          if acc_type acct \<noteq> Mei then None
          else
            (let currentMonth = getMonth now;
                 currentYear = getFullYear now;
                 monthIncome = sum_amounts
                   (filter (\<lambda>t. accountId t = Some accountId' \<and> tx_type t = Income
                               \<and> getMonth (date t) = currentMonth
                               \<and> getFullYear (date t) = currentYear)
                      (transactions d));
                 limSafe = 6750;
                 limMax = 8100;
                 st = (if monthIncome > limMax then Critical
                       else if monthIncome > limSafe then Warning else Safe)
             in Some \<lparr>total' = monthIncome, limitSafe = limSafe, limitMax = limMax,
                       status = st, percent = (monthIncome / limSafe) * 100\<rparr>))"

lemma foldl_add_amount: "foldl (\<lambda>acc t. acc + amount t) a ts = a + sum_list (map amount ts)"
  by (induction ts arbitrary: a) (simp_all add: add.assoc)

lemma sum_amounts_sum_list: "sum_amounts ts = sum_list (map amount ts)"
  by (simp add: sum_amounts_def foldl_add_amount)

lemma filter_no_home:
  assumes "\<forall>t\<in>set ts. isHomeExpense t \<longrightarrow> accountId t \<noteq> Some aid"
  shows "filter (\<lambda>t. accountId t = Some aid \<and> tx_type t = k) ts
       = filter (\<lambda>t. accountId t = Some aid \<and> \<not> isHomeExpense t \<and> tx_type t = k) ts"
  using assms by (intro filter_cong) auto

subsection \<open>Example data\<close>

definition ex_tx :: transaction where
  "ex_tx = \<lparr>tx_id = ''t1'', createdAt = 0, tx_type = Expense, amount = 50,
            description = None, category = Some ''Luz'', date = 0,
            accountId = None, isHomeExpense = True, isPaid = Some False,
            recurringId = None, installmentId = None, isReminder = None\<rparr>"

definition ex_account :: account where
  "ex_account = \<lparr>acc_id = ''a1'', acc_name = ''MEI'', acc_type = Mei,
                 initialBalance = Some 80000, cnpj = [], acc_description = []\<rparr>"

definition ex_data :: store_data where
  "ex_data = \<lparr>transactions = [], customCategories = [], homeCategories = [],
              selectedDate = 0, selectedMonth = 0, reportFilter = ''monthly'',
              reportStartDate = [], reportEndDate = [],
              accounts = [ex_account], recurring = []\<rparr>"

section \<open>Account balance\<close>

text \<open>
  Claim C1. As the specification states it, the balance of an account is its initial
  balance plus its income minus its expenses, counting only transactions whose
  \<open>isHomeExpense\<close> flag is false. \<open>getAccountBalance\<close> selects by \<open>accountId\<close> and
  \<open>type\<close> alone and never reads the flag: a household transaction that carries the
  account's id is counted. Here an account with initial balance 80000 and one
  household expense of 50 on that account has balance 79950, not 80000.
\<close>

theorem getAccountBalance_counts_household:
  "getAccountBalance (ex_data\<lparr>transactions := [ex_tx\<lparr>accountId := Some ''a1''\<rparr>]\<rparr>) ''a1'' = 79950
   \<and> getAccountBalance (ex_data\<lparr>transactions := [ex_tx\<lparr>accountId := Some ''a1''\<rparr>]\<rparr>) ''a1''
     \<noteq> spec_accountBalance (ex_data\<lparr>transactions := [ex_tx\<lparr>accountId := Some ''a1''\<rparr>]\<rparr>) ''a1''"
  by (simp add: getAccountBalance_def spec_accountBalance_def ex_data_def ex_tx_def
      ex_account_def or_zero_def sum_amounts_def)

text \<open>
  Claim C1, amended. The balance is the account's initial balance (0 when missing)
  plus the income minus the expenses of all transactions that carry the account's id,
  whatever their \<open>isHomeExpense\<close> flag. Whenever no household transaction carries the
  account's id (the program itself never gives a household transaction an
  \<open>accountId\<close>), this is the specification's formula, restricted to the
  non-household transactions. An id with no account yields 0.
\<close>

theorem getAccountBalance_additive:
  "getAccountBalance d aid =
     (case find (\<lambda>a. acc_id a = aid) (accounts d) of
        None \<Rightarrow> 0
      | Some acct \<Rightarrow>
          or_zero (initialBalance acct)
          + sum_list (map amount
              (filter (\<lambda>t. accountId t = Some aid \<and> tx_type t = Income) (transactions d)))
          - sum_list (map amount
              (filter (\<lambda>t. accountId t = Some aid \<and> tx_type t = Expense) (transactions d))))
   \<and> ((\<forall>t\<in>set (transactions d). isHomeExpense t \<longrightarrow> accountId t \<noteq> Some aid)
        \<longrightarrow> getAccountBalance d aid = spec_accountBalance d aid)
   \<and> (find (\<lambda>a. acc_id a = aid) (accounts d) = None \<longrightarrow> getAccountBalance d aid = 0)"
proof (intro conjI impI)
  show "getAccountBalance d aid =
     (case find (\<lambda>a. acc_id a = aid) (accounts d) of
        None \<Rightarrow> 0
      | Some acct \<Rightarrow>
          or_zero (initialBalance acct)
          + sum_list (map amount
              (filter (\<lambda>t. accountId t = Some aid \<and> tx_type t = Income) (transactions d)))
          - sum_list (map amount
              (filter (\<lambda>t. accountId t = Some aid \<and> tx_type t = Expense) (transactions d))))"
    by (simp add: getAccountBalance_def sum_amounts_sum_list split: option.splits)
next
  assume "\<forall>t\<in>set (transactions d). isHomeExpense t \<longrightarrow> accountId t \<noteq> Some aid"
  then show "getAccountBalance d aid = spec_accountBalance d aid"
    using filter_no_home [of "transactions d" aid]
    by (simp add: getAccountBalance_def spec_accountBalance_def sum_amounts_sum_list
        split: option.splits)
next
  assume "find (\<lambda>a. acc_id a = aid) (accounts d) = None"
  then show "getAccountBalance d aid = 0"
    by (simp add: getAccountBalance_def)
qed

theorem getAccountBalance_additive_witness:
  "list_all (\<lambda>t. isHomeExpense t \<longrightarrow> accountId t \<noteq> Some ''a1'')
     (transactions (ex_data\<lparr>transactions :=
        [ex_tx, ex_tx\<lparr>accountId := Some ''a1'', isHomeExpense := False\<rparr>]\<rparr>))
   \<and> getAccountBalance (ex_data\<lparr>transactions :=
        [ex_tx, ex_tx\<lparr>accountId := Some ''a1'', isHomeExpense := False\<rparr>]\<rparr>) ''a1'' = 79950
   \<and> spec_accountBalance (ex_data\<lparr>transactions :=
        [ex_tx, ex_tx\<lparr>accountId := Some ''a1'', isHomeExpense := False\<rparr>]\<rparr>) ''a1'' = 79950"
proof -
  let ?d = "ex_data\<lparr>transactions :=
        [ex_tx, ex_tx\<lparr>accountId := Some ''a1'', isHomeExpense := False\<rparr>]\<rparr>"
  have h: "\<forall>t\<in>set (transactions ?d). isHomeExpense t \<longrightarrow> accountId t \<noteq> Some ''a1''"
    by (simp add: ex_data_def ex_tx_def)
  have v: "spec_accountBalance ?d ''a1'' = 79950"
    by (simp add: spec_accountBalance_def ex_data_def ex_tx_def ex_account_def or_zero_def)
  have "getAccountBalance ?d ''a1'' = spec_accountBalance ?d ''a1''"
    using getAccountBalance_additive [of ?d "''a1''"] h by blast
  with h v show ?thesis
    by (simp add: list_all_iff)
qed

section \<open>Regulatory limit status\<close>

text \<open>
  Claim C4. For an account of type \<^verbatim>\<open>mei\<close>, the annual status is computed from
  \<open>total = initialBalance + income of the current calendar year\<close> and is \<open>safe\<close> up to
  81000, \<open>warning\<close> above 81000 up to 97200 and \<open>critical\<close> above 97200. The monthly
  status is computed from the income of the current calendar month alone, with the
  limits 6750 and 8100, each one twelfth of the annual limit.
\<close>

theorem limit_status_thresholds:
  assumes "find (\<lambda>a. acc_id a = aid) (accounts d) = Some acct" and "acc_type acct = Mei"
  shows "\<exists>A M. getAccountLimitStatus now d aid = Some A
      \<and> getAccountMonthlyStatus now d aid = Some M
      \<and> total' A = or_zero (initialBalance acct)
          + sum_list (map amount (filter (\<lambda>t. accountId t = Some aid \<and> tx_type t = Income
                \<and> getFullYear (date t) = getFullYear now) (transactions d)))
      \<and> (status A = Safe \<longleftrightarrow> total' A \<le> 81000)
      \<and> (status A = Warning \<longleftrightarrow> 81000 < total' A \<and> total' A \<le> 97200)
      \<and> (status A = Critical \<longleftrightarrow> 97200 < total' A)
      \<and> total' M = sum_list (map amount (filter (\<lambda>t. accountId t = Some aid \<and> tx_type t = Income
                \<and> getMonth (date t) = getMonth now
                \<and> getFullYear (date t) = getFullYear now) (transactions d)))
      \<and> (status M = Safe \<longleftrightarrow> total' M \<le> 6750)
      \<and> (status M = Warning \<longleftrightarrow> 6750 < total' M \<and> total' M \<le> 8100)
      \<and> (status M = Critical \<longleftrightarrow> 8100 < total' M)
      \<and> limitSafe A = 81000 \<and> limitMax A = 97200
      \<and> limitSafe M * 12 = limitSafe A \<and> limitMax M * 12 = limitMax A"
  using assms
  by (simp add: getAccountLimitStatus_def getAccountMonthlyStatus_def sum_amounts_sum_list Let_def)

text \<open>
  The specification's scenario: initial balance 80000 and 2000 of income this year
  give a total of 82000 and the status \<open>warning\<close>; the month's 2000 are \<open>safe\<close>.
\<close>

theorem limit_status_thresholds_witness:
  "find (\<lambda>a. acc_id a = ''a1'')
     (accounts (ex_data\<lparr>transactions :=
        [ex_tx\<lparr>tx_type := Income, amount := 2000, accountId := Some ''a1'',
               isHomeExpense := False\<rparr>]\<rparr>)) = Some ex_account
   \<and> acc_type ex_account = Mei
   \<and> map_option total' (getAccountLimitStatus 0 (ex_data\<lparr>transactions :=
        [ex_tx\<lparr>tx_type := Income, amount := 2000, accountId := Some ''a1'',
               isHomeExpense := False\<rparr>]\<rparr>) ''a1'') = Some 82000
   \<and> map_option status (getAccountLimitStatus 0 (ex_data\<lparr>transactions :=
        [ex_tx\<lparr>tx_type := Income, amount := 2000, accountId := Some ''a1'',
               isHomeExpense := False\<rparr>]\<rparr>) ''a1'') = Some Warning
   \<and> map_option status (getAccountMonthlyStatus 0 (ex_data\<lparr>transactions :=
        [ex_tx\<lparr>tx_type := Income, amount := 2000, accountId := Some ''a1'',
               isHomeExpense := False\<rparr>]\<rparr>) ''a1'') = Some Safe"
proof -
  let ?d = "ex_data\<lparr>transactions :=
        [ex_tx\<lparr>tx_type := Income, amount := 2000, accountId := Some ''a1'',
               isHomeExpense := False\<rparr>]\<rparr>"
  have h1: "find (\<lambda>a. acc_id a = ''a1'') (accounts ?d) = Some ex_account"
    by (simp add: ex_data_def ex_account_def)
  have h2: "acc_type ex_account = Mei"
    by (simp add: ex_account_def)
  have ib: "or_zero (initialBalance ex_account) = 80000"
    by (simp add: ex_account_def or_zero_def)
  have txs: "transactions ?d = [ex_tx\<lparr>tx_type := Income, amount := 2000,
      accountId := Some ''a1'', isHomeExpense := False\<rparr>]"
    by (simp add: ex_data_def)
  obtain A M where am: "getAccountLimitStatus 0 ?d ''a1'' = Some A"
      "getAccountMonthlyStatus 0 ?d ''a1'' = Some M"
      "total' A = or_zero (initialBalance ex_account)
          + sum_list (map amount (filter (\<lambda>t. accountId t = Some ''a1'' \<and> tx_type t = Income
                \<and> getFullYear (date t) = getFullYear 0) (transactions ?d)))"
      "status A = Warning \<longleftrightarrow> 81000 < total' A \<and> total' A \<le> 97200"
      "total' M = sum_list (map amount (filter (\<lambda>t. accountId t = Some ''a1'' \<and> tx_type t = Income
                \<and> getMonth (date t) = getMonth 0
                \<and> getFullYear (date t) = getFullYear 0) (transactions ?d)))"
      "status M = Safe \<longleftrightarrow> total' M \<le> 6750"
    using limit_status_thresholds [OF h1 h2, of 0] by blast
  have tA: "total' A = 82000"
    using am(3) by (simp add: ib txs ex_tx_def)
  have tM: "total' M = 2000"
    using am(5) by (simp add: txs ex_tx_def)
  show ?thesis
    using h1 h2 am(1,2,4,6) tA tM by simp
qed

section \<open>Date range filter\<close>

text \<open>
  \<^verbatim>\<open>isWithinRange\<close> parses its three arguments with \<^verbatim>\<open>new Date(str)\<close>. The program
  passes two kinds of string. A transaction's date is a date-time string with a zone
  designator, as \<^verbatim>\<open>toISOString()\<close> writes it: \<open>DateTime t\<close>, where \<open>t\<close> is the local
  time value of the instant, as everywhere in this theory. The bounds of the report
  window are date-only strings \<^verbatim>\<open>YYYY-MM-DD\<close> (the value of a date input, or
  \<^verbatim>\<open>toISOString().split('T')[0]\<close>): \<open>DateOnly y m d\<close>, with the month counted from 1.
  \<^verbatim>\<open>new Date\<close> reads a date-only string as midnight UTC of that date; its local time
  value is that midnight plus the offset \<open>tz\<close> of local time from UTC, in milliseconds
  (negative west of Greenwich). A string that names no date (the empty string, a
  month or day that does not exist) is read here as an invalid date, and every
  comparison with an invalid date is false.
\<close>

datatype date_text = DateTime jsdate | DateOnly int int int | NotADate

definition parseDate :: "int \<Rightarrow> date_text \<Rightarrow> jsdate option" where
  "parseDate tz s =
     (case s of
        DateTime t \<Rightarrow> Some t
      | DateOnly y m d \<Rightarrow>
          if 1 \<le> m \<and> m \<le> 12 \<and> 1 \<le> d \<and> d \<le> days_in_month y (m - 1)
          then Some (MakeDate (MakeDay y (m - 1) d) 0 + tz)
          else None
      | NotADate \<Rightarrow> None)"

definition isWithinRange :: "int \<Rightarrow> date_text \<Rightarrow> date_text \<Rightarrow> date_text \<Rightarrow> bool" where
  "isWithinRange tz dateStr startStr endStr =
     (case parseDate tz dateStr of
        None \<Rightarrow> False
      | Some d \<Rightarrow>
          (case parseDate tz startStr of
             None \<Rightarrow> False
           | Some startP \<Rightarrow>
               (case parseDate tz endStr of
                  None \<Rightarrow> False
                | Some endP \<Rightarrow>
                    (let start1 = setHours startP 0 0 0 0;
                         end1 = setHours endP 23 59 59 999
                     in d \<ge> start1 \<and> d \<le> end1))))"

definition utc_minus_3 :: int where
  \<comment> \<open>the offset of Brasilia time, UTC-3\<close>
  "utc_minus_3 = - 10800000"

definition jan31_1970_noon :: jsdate where
  \<comment> \<open>local time value of 31 January 1970, 12:00 local time\<close>
  "jan31_1970_noon = 2635200000"

lemma setHours_start_of_day: "setHours t 0 0 0 0 = Day t * msPerDay"
  by (simp add: setHours_def MakeDate_def MakeTime_def)

lemma setHours_end_of_day: "setHours t 23 59 59 999 = Day t * msPerDay + 86399999"
  by (simp add: setHours_def MakeDate_def MakeTime_def)

lemma mult_le_iff_le_div:
  fixes a c d :: int
  assumes "0 < c"
  shows "a * c \<le> d \<longleftrightarrow> a \<le> d div c"
proof
  assume "a * c \<le> d"
  then have "(a * c) div c \<le> d div c"
    using assms by (intro zdiv_mono1)
  moreover have "(a * c) div c = a"
    using assms by simp
  ultimately show "a \<le> d div c"
    by (simp only:)
next
  assume "a \<le> d div c"
  then have "a * c \<le> (d div c) * c"
    using assms by (simp add: mult_right_mono)
  also have "\<dots> \<le> d"
    using assms div_mult_mod_eq [of d c] pos_mod_sign [of c d] by linarith
  finally show "a * c \<le> d" .
qed

lemma le_mult_add_iff_div_le:
  fixes a c d :: int
  assumes "0 < c"
  shows "d \<le> a * c + (c - 1) \<longleftrightarrow> d div c \<le> a"
proof -
  have "d \<le> a * c + (c - 1) \<longleftrightarrow> \<not> (a + 1) * c \<le> d"
    by (auto simp: algebra_simps)
  also have "\<dots> \<longleftrightarrow> \<not> a + 1 \<le> d div c"
    using mult_le_iff_le_div [OF assms, of "a + 1" d] by simp
  finally show ?thesis by auto
qed

lemma day_lower_bound: "Day s * msPerDay \<le> d \<longleftrightarrow> Day s \<le> Day d"
  using mult_le_iff_le_div [of msPerDay "Day s" d] by (simp add: Day_def msPerDay_def)

lemma day_upper_bound: "d \<le> Day e * msPerDay + 86399999 \<longleftrightarrow> Day d \<le> Day e"
  using le_mult_add_iff_div_le [of msPerDay d "Day e"] by (simp add: Day_def msPerDay_def)

lemma Day_MakeDate: "0 \<le> tm \<Longrightarrow> tm < msPerDay \<Longrightarrow> Day (MakeDate n tm) = n"
  by (simp add: Day_def MakeDate_def msPerDay_def)

lemma TimeWithinDay_MakeDate:
  "0 \<le> tm \<Longrightarrow> tm < msPerDay \<Longrightarrow> TimeWithinDay (MakeDate n tm) = tm"
  by (simp add: TimeWithinDay_def MakeDate_def msPerDay_def)

text \<open>
  On parsed values the test compares calendar days: the start is moved to 00:00:00.000
  and the end to 23:59:59.999 of the local days of the parsed instants.
\<close>

lemma isWithinRange_parsed:
  assumes "parseDate tz dateStr = Some d" and "parseDate tz startStr = Some s"
    and "parseDate tz endStr = Some e"
  shows "isWithinRange tz dateStr startStr endStr \<longleftrightarrow> Day s \<le> Day d \<and> Day d \<le> Day e"
  using assms
  by (simp add: isWithinRange_def setHours_start_of_day setHours_end_of_day
      day_lower_bound day_upper_bound)

text \<open>
  At UTC and east of it (an offset of less than a day), midnight UTC of a date falls
  on that date's local day, and the bounds are the calendar days the strings name.
\<close>

lemma parseDate_date_only_east:
  assumes "0 \<le> tz" and "tz < msPerDay"
    and "1 \<le> m" and "m \<le> 12" and "1 \<le> d" and "d \<le> days_in_month y (m - 1)"
  shows "\<exists>t. parseDate tz (DateOnly y m d) = Some t \<and> Day t = MakeDay y (m - 1) d"
proof -
  have "MakeDate (MakeDay y (m - 1) d) 0 + tz = MakeDate (MakeDay y (m - 1) d) tz"
    by (simp add: MakeDate_def)
  then show ?thesis
    using assms by (simp add: parseDate_def Day_MakeDate)
qed

lemma isWithinRange_date_only_east:
  assumes "0 \<le> tz" and "tz < msPerDay"
    and "1 \<le> ms" and "ms \<le> 12" and "1 \<le> ds" and "ds \<le> days_in_month ys (ms - 1)"
    and "1 \<le> me" and "me \<le> 12" and "1 \<le> de" and "de \<le> days_in_month ye (me - 1)"
  shows "isWithinRange tz (DateTime d) (DateOnly ys ms ds) (DateOnly ye me de)
     \<longleftrightarrow> MakeDay ys (ms - 1) ds \<le> Day d \<and> Day d \<le> MakeDay ye (me - 1) de"
proof -
  obtain s where s: "parseDate tz (DateOnly ys ms ds) = Some s" "Day s = MakeDay ys (ms - 1) ds"
    using parseDate_date_only_east [OF assms(1-6)] by blast
  obtain e where e: "parseDate tz (DateOnly ye me de) = Some e" "Day e = MakeDay ye (me - 1) de"
    using parseDate_date_only_east [OF assms(1,2,7-10)] by blast
  have "parseDate tz (DateTime d) = Some d"
    by (simp add: parseDate_def)
  from isWithinRange_parsed [OF this s(1) e(1)] show ?thesis
    by (simp add: s(2) e(2))
qed

text \<open>
  Claim C7. The claim is what the code's comment announces (the start moved to
  00:00:00, the end to 23:59:59 of their days), and it holds of the code at UTC and
  east of it. West of Greenwich it fails for the date-only bounds the report passes:
  at UTC-3, the end \<^verbatim>\<open>1970-01-31\<close> is read as 30 January, 21:00 local time, and moved to
  the end of 30 January. A transaction of 31 January, 12:00 local time, which is on the
  end date's calendar day, is not within the range from \<^verbatim>\<open>1970-01-01\<close> to
  \<^verbatim>\<open>1970-01-31\<close>.
\<close>

theorem isWithinRange_drops_end_day_west_of_utc:
  "getFullYear jan31_1970_noon = 1970 \<and> getMonth jan31_1970_noon = 0
   \<and> getDate jan31_1970_noon = 31
   \<and> \<not> isWithinRange utc_minus_3 (DateTime jan31_1970_noon)
         (DateOnly 1970 1 1) (DateOnly 1970 1 31)"
  by code_simp

section \<open>Category aggregate\<close>

text \<open>
  \<^verbatim>\<open>groupByCat\<close> is the grouping helper of the reports view. Its accumulator
  \<^verbatim>\<open>map = {}\<close> is an ordinary object and inherits the members of
  \<^verbatim>\<open>Object.prototype\<close>. Reading \<^verbatim>\<open>map[cat]\<close> for a label that names one of them, and
  that the map does not hold itself, gives the inherited function or, for
  \<^verbatim>\<open>__proto__\<close>, the prototype object: both are truthy, so the cell is not set to 0, and
  \<^verbatim>\<open>+=\<close> concatenates text. The assignment then creates a property of the map that
  holds this text, except for \<^verbatim>\<open>__proto__\<close>, whose setter ignores a value that is no
  object. A cell of the map is therefore a number or a text (\<open>NaNCell\<close> stands for
  \<^verbatim>\<open>undefined + amount\<close>, which the guard before the addition rules out).

  \<^verbatim>\<open>Object.entries\<close> lists the keys that are array indices first, in ascending numeric
  order, and then the other keys in insertion order. \<^verbatim>\<open>sort\<close> is stable and reads a
  comparator result that is no number as 0; \<open>sort_by\<close> is the stable insertion sort.
  (With a text among several cells the comparator is not consistent and the platform
  leaves the order open; the statements below do not depend on it.) A quotient with a
  text is no number.
\<close>

datatype cell = NumCell rat | NaNCell | TextCell

datatype jsnum = Num rat | NaN

datatype lookup = Own cell | Inherited | Missing

definition proto_members :: "string list" where
  "proto_members =
     [''constructor'', ''__defineGetter__'', ''__defineSetter__'', ''hasOwnProperty'',
      ''__lookupGetter__'', ''__lookupSetter__'', ''isPrototypeOf'',
      ''propertyIsEnumerable'', ''toString'', ''valueOf'', ''__proto__'',
      ''toLocaleString'']"

definition map_get :: "(string \<times> cell) list \<Rightarrow> string \<Rightarrow> lookup" where
  "map_get m k =
     (case map_of m k of
        Some c \<Rightarrow> Own c
      | None \<Rightarrow> if k \<in> set proto_members then Inherited else Missing)"

definition falsy :: "lookup \<Rightarrow> bool" where
  "falsy v = (v = Missing \<or> v = Own (NumCell 0) \<or> v = Own NaNCell)"

definition map_add :: "(string \<times> cell) list \<Rightarrow> string \<Rightarrow> rat \<Rightarrow> (string \<times> cell) list" where
  "map_add m k a =
     (case map_get m k of
        Own (NumCell v) \<Rightarrow> AList.update k (NumCell (v + a)) m
      | Own NaNCell \<Rightarrow> AList.update k NaNCell m
      | Own TextCell \<Rightarrow> AList.update k TextCell m
      | Inherited \<Rightarrow> if k = ''__proto__'' then m else AList.update k TextCell m
      | Missing \<Rightarrow> AList.update k NaNCell m)"

definition cat_label :: "transaction \<Rightarrow> string" where
  "cat_label t = (case category t of None \<Rightarrow> ''Outros'' | Some c \<Rightarrow> if c = [] then ''Outros'' else c)"

definition group_step ::
  "transaction \<Rightarrow> (string \<times> cell) list \<times> rat \<Rightarrow> (string \<times> cell) list \<times> rat" where
  "group_step t acc =
     (case acc of (m, tot) \<Rightarrow>
        (let cat = cat_label t;
             m1 = (if falsy (map_get m cat) then AList.update cat (NumCell 0) m else m);
             m2 = map_add m1 cat (amount t)
         in (m2, tot + amount t)))"

definition digit_value :: "char \<Rightarrow> int" where
  \<comment> \<open>the digits have the code points 48 to 57\<close>
  "digit_value c = of_char c - 48"

definition index_value :: "string \<Rightarrow> int" where
  "index_value s = foldl (\<lambda>n c. 10 * n + digit_value c) 0 s"

definition is_array_index :: "string \<Rightarrow> bool" where
  "is_array_index s =
     (s \<noteq> [] \<and> list_all (\<lambda>c. c \<in> set ''0123456789'') s
      \<and> (s = ''0'' \<or> hd s \<noteq> CHR ''0'') \<and> index_value s < 4294967295)"

definition object_entries :: "(string \<times> cell) list \<Rightarrow> (string \<times> cell) list" where
  "object_entries m =
     sort_key (\<lambda>(k, v). index_value k) (filter (\<lambda>(k, v). is_array_index k) m)
     @ filter (\<lambda>(k, v). \<not> is_array_index k) m"

definition compare_desc :: "string \<times> cell \<Rightarrow> string \<times> cell \<Rightarrow> rat" where
  "compare_desc a b =
     (case snd b of
        NumCell y \<Rightarrow> (case snd a of NumCell x \<Rightarrow> y - x | NaNCell \<Rightarrow> 0 | TextCell \<Rightarrow> 0)
      | NaNCell \<Rightarrow> 0
      | TextCell \<Rightarrow> 0)"

fun insert_by :: "('a \<Rightarrow> 'a \<Rightarrow> rat) \<Rightarrow> 'a \<Rightarrow> 'a list \<Rightarrow> 'a list" where
  "insert_by cmp x [] = [x]"
| "insert_by cmp x (y # ys) = (if cmp x y \<le> 0 then x # y # ys else y # insert_by cmp x ys)"

definition sort_by :: "('a \<Rightarrow> 'a \<Rightarrow> rat) \<Rightarrow> 'a list \<Rightarrow> 'a list" where
  "sort_by cmp xs = foldr (insert_by cmp) xs []"

record cat_group =
  g_name :: string
  g_val :: cell
  g_percent :: jsnum

definition percent_of :: "rat \<Rightarrow> cell \<Rightarrow> jsnum" where
  "percent_of tot v =
     (if tot > 0
      then (case v of NumCell x \<Rightarrow> Num (x / tot * 100) | NaNCell \<Rightarrow> NaN | TextCell \<Rightarrow> NaN)
      else Num 0)"

definition groupByCat :: "transaction list \<Rightarrow> cat_group list" where
  "groupByCat list =
     (case fold group_step list ([], 0) of (m, tot) \<Rightarrow>
        map (\<lambda>(name, v). \<lparr>g_name = name, g_val = v, g_percent = percent_of tot v\<rparr>)
          (sort_by compare_desc (object_entries m)))"

definition cell_num :: "cell \<Rightarrow> rat" where
  "cell_num c = (case c of NumCell x \<Rightarrow> x | NaNCell \<Rightarrow> 0 | TextCell \<Rightarrow> 0)"

definition is_num :: "cell \<Rightarrow> bool" where
  "is_num c = (case c of NumCell x \<Rightarrow> True | NaNCell \<Rightarrow> False | TextCell \<Rightarrow> False)"

definition num_value :: "jsnum \<Rightarrow> rat" where
  "num_value n = (case n of Num x \<Rightarrow> x | NaN \<Rightarrow> 0)"

definition all_num :: "(string \<times> cell) list \<Rightarrow> bool" where
  "all_num m = list_all (\<lambda>kv. is_num (snd kv)) m"

definition sum_cells :: "(string \<times> cell) list \<Rightarrow> rat" where
  "sum_cells m = sum_list (map (\<lambda>kv. cell_num (snd kv)) m)"

definition plain_labels :: "transaction list \<Rightarrow> bool" where
  "plain_labels ts = list_all (\<lambda>t. cat_label t \<notin> set proto_members) ts"

lemma is_num_NumCell: "is_num c \<Longrightarrow> c = NumCell (cell_num c)"
  by (cases c) (simp_all add: is_num_def cell_num_def)

lemma all_num_lookup: "all_num m \<Longrightarrow> map_of m k = Some c \<Longrightarrow> is_num c"
  by (induction m) (auto simp: all_num_def split: if_splits)

lemma all_num_update: "all_num m \<Longrightarrow> is_num c \<Longrightarrow> all_num (AList.update k c m)"
  by (induction m) (auto simp: all_num_def)

lemma sum_cells_update:
  "sum_cells (AList.update k c m)
     = sum_cells m - (case map_of m k of None \<Rightarrow> 0 | Some c' \<Rightarrow> cell_num c') + cell_num c"
  by (induction m) (auto simp: sum_cells_def)

lemma group_step_plain:
  assumes "cat_label t \<notin> set proto_members" and "all_num m"
  shows "group_step t (m, tot) =
     (AList.update (cat_label t)
        (NumCell ((case map_of m (cat_label t) of None \<Rightarrow> 0 | Some c \<Rightarrow> cell_num c) + amount t)) m,
      tot + amount t)"
proof (cases "map_of m (cat_label t)")
  case None
  then show ?thesis
    using assms(1)
    by (simp add: group_step_def map_get_def falsy_def map_add_def Let_def update_conv')
next
  case (Some c)
  then have "is_num c"
    using assms(2) all_num_lookup by blast
  then obtain x where c: "c = NumCell x"
    using is_num_NumCell by blast
  have "cat_label t \<noteq> ''__proto__''"
    using assms(1) by (auto simp: proto_members_def)
  then show ?thesis
    using assms(1) Some c
    by (simp add: group_step_def map_get_def falsy_def map_add_def Let_def update_conv' cell_num_def)
qed

lemma fold_group_step_plain:
  assumes "plain_labels ts" and "all_num m"
  shows "all_num (fst (fold group_step ts (m, tot)))
     \<and> sum_cells (fst (fold group_step ts (m, tot))) = sum_cells m + sum_list (map amount ts)
     \<and> snd (fold group_step ts (m, tot)) = tot + sum_list (map amount ts)"
  using assms
proof (induction ts arbitrary: m tot)
  case Nil
  then show ?case by simp
next
  case (Cons t ts)
  let ?v = "NumCell ((case map_of m (cat_label t) of None \<Rightarrow> 0 | Some c \<Rightarrow> cell_num c) + amount t)"
  let ?m = "AList.update (cat_label t) ?v m"
  have p: "cat_label t \<notin> set proto_members" "plain_labels ts"
    using Cons.prems(1) by (simp_all add: plain_labels_def)
  have s: "group_step t (m, tot) = (?m, tot + amount t)"
    using group_step_plain [OF p(1) Cons.prems(2)] .
  have a: "all_num ?m"
    using Cons.prems(2) by (simp add: all_num_update is_num_def)
  have c: "sum_cells ?m = sum_cells m + amount t"
    by (simp add: sum_cells_update cell_num_def)
  show ?case
    using Cons.IH [OF p(2) a, of "tot + amount t"] s c by (simp add: ac_simps)
qed

lemma sum_list_filter_split:
  fixes g :: "'a \<Rightarrow> rat"
  shows "sum_list (map g (filter P xs)) + sum_list (map g (filter (\<lambda>x. \<not> P x) xs))
     = sum_list (map g xs)"
  by (induction xs) simp_all

lemma sum_list_insort_key:
  fixes g :: "'a \<Rightarrow> rat"
  shows "sum_list (map g (insort_key f x xs)) = g x + sum_list (map g xs)"
  by (induction xs) (simp_all add: ac_simps)

lemma sum_list_sort_key:
  fixes g :: "'a \<Rightarrow> rat"
  shows "sum_list (map g (sort_key f xs)) = sum_list (map g xs)"
  by (induction xs) (simp_all add: sum_list_insort_key)

lemma object_entries_plain:
  "all_num m \<Longrightarrow> all_num (object_entries m)"
  "sum_cells (object_entries m) = sum_cells m"
proof -
  show "all_num m \<Longrightarrow> all_num (object_entries m)"
    by (auto simp: all_num_def object_entries_def list_all_iff)
  show "sum_cells (object_entries m) = sum_cells m"
  proof -
    have e: "(\<lambda>(k, v). \<not> is_array_index k) = (\<lambda>kv :: string \<times> cell. \<not> (case kv of (k, v) \<Rightarrow> is_array_index k))"
      by auto
    show ?thesis
      unfolding sum_cells_def object_entries_def e
      by (simp add: sum_list_sort_key sum_list_filter_split)
  qed
qed

lemma insert_by_plain:
  "set (insert_by cmp x xs) = insert x (set xs)"
  by (induction xs) auto

lemma sort_by_set: "set (sort_by cmp xs) = set xs"
  by (induction xs) (simp_all add: sort_by_def insert_by_plain)

lemma sum_list_insert_by:
  fixes g :: "'a \<Rightarrow> rat"
  shows "sum_list (map g (insert_by cmp x xs)) = g x + sum_list (map g xs)"
  by (induction xs) (simp_all add: ac_simps)

lemma sum_list_sort_by:
  fixes g :: "'a \<Rightarrow> rat"
  shows "sum_list (map g (sort_by cmp xs)) = sum_list (map g xs)"
  by (induction xs) (simp_all add: sort_by_def sum_list_insert_by)

lemma compare_desc_num:
  "is_num (snd a) \<Longrightarrow> is_num (snd b) \<Longrightarrow> compare_desc a b = cell_num (snd b) - cell_num (snd a)"
  by (cases "snd a"; cases "snd b") (simp_all add: compare_desc_def is_num_def cell_num_def)

lemma insert_by_sorted:
  assumes "sorted_wrt (\<lambda>a b. cell_num (snd b) \<le> cell_num (snd a)) xs"
    and "is_num (snd x)" and "all_num xs"
  shows "sorted_wrt (\<lambda>a b. cell_num (snd b) \<le> cell_num (snd a)) (insert_by compare_desc x xs)"
  using assms
proof (induction xs)
  case Nil
  then show ?case by simp
next
  case (Cons y ys)
  have n: "is_num (snd y)" "all_num ys"
    using Cons.prems(3) by (simp_all add: all_num_def)
  show ?case
  proof (cases "compare_desc x y \<le> 0")
    case True
    then have "cell_num (snd y) \<le> cell_num (snd x)"
      using compare_desc_num [OF Cons.prems(2) n(1)] by simp
    then show ?thesis
      using True Cons.prems(1) by auto
  next
    case False
    then have "cell_num (snd x) \<le> cell_num (snd y)"
      using compare_desc_num [OF Cons.prems(2) n(1)] by simp
    then show ?thesis
      using False Cons.prems(1) Cons.IH [OF _ Cons.prems(2) n(2)]
      by (auto simp: insert_by_plain)
  qed
qed

lemma sort_by_sorted:
  "all_num xs \<Longrightarrow>
   sorted_wrt (\<lambda>a b. cell_num (snd b) \<le> cell_num (snd a)) (sort_by compare_desc xs)"
proof (induction xs)
  case Nil
  then show ?case by (simp add: sort_by_def)
next
  case (Cons x xs)
  have n: "is_num (snd x)" "all_num xs"
    using Cons.prems by (simp_all add: all_num_def)
  have "all_num (sort_by compare_desc xs)"
    using n(2) by (simp add: all_num_def list_all_iff sort_by_set)
  then show ?case
    using insert_by_sorted [OF Cons.IH [OF n(2)] n(1)] by (simp add: sort_by_def)
qed

lemma sum_list_percent:
  fixes f :: "'a \<Rightarrow> rat"
  shows "sum_list (map (\<lambda>x. f x / c * 100) xs) = sum_list (map f xs) / c * 100"
  by (induction xs) (simp_all add: add_divide_distrib distrib_right)

lemma percent_of_num:
  "0 < tot \<Longrightarrow> is_num v \<Longrightarrow> num_value (percent_of tot v) = cell_num v / tot * 100"
  by (cases v) (simp_all add: percent_of_def num_value_def is_num_def cell_num_def)

lemma groupByCat_entries:
  "groupByCat ts =
     map (\<lambda>kv. \<lparr>g_name = fst kv, g_val = snd kv,
                g_percent = percent_of (snd (fold group_step ts ([], 0))) (snd kv)\<rparr>)
       (sort_by compare_desc (object_entries (fst (fold group_step ts ([], 0)))))"
  by (simp add: groupByCat_def case_prod_beta)

text \<open>
  For labels that name no member of \<^verbatim>\<open>Object.prototype\<close> every cell is a number, the
  group totals sum to the sum of the amounts, the percents sum to 100 when that sum is
  positive, and the groups are in descending order of total.
\<close>

lemma groupByCat_plain_labels:
  assumes "plain_labels ts"
  shows "list_all (\<lambda>g. is_num (g_val g)) (groupByCat ts)"
    and "sum_list (map (\<lambda>g. cell_num (g_val g)) (groupByCat ts)) = sum_list (map amount ts)"
    and "0 < sum_list (map amount ts)
      \<Longrightarrow> sum_list (map (\<lambda>g. num_value (g_percent g)) (groupByCat ts)) = 100"
    and "sorted_wrt (\<lambda>g h. cell_num (g_val h) \<le> cell_num (g_val g)) (groupByCat ts)"
proof -
  let ?m = "fst (fold group_step ts ([], 0))"
  let ?tot = "snd (fold group_step ts ([], 0))"
  let ?es = "sort_by compare_desc (object_entries ?m)"
  have e: "all_num []"
    by (simp add: all_num_def)
  have f: "all_num ?m" "sum_cells ?m = sum_list (map amount ts)"
    "?tot = sum_list (map amount ts)"
    using fold_group_step_plain [OF assms e, of 0] by (simp_all add: sum_cells_def)
  have o: "all_num (object_entries ?m)"
    using f(1) by (rule object_entries_plain(1))
  have n: "all_num ?es"
    using o by (simp add: all_num_def list_all_iff sort_by_set)
  have s: "sum_cells ?es = sum_list (map amount ts)"
    using f(2) by (simp add: sum_cells_def sum_list_sort_by object_entries_plain(2) [unfolded sum_cells_def])
  show "list_all (\<lambda>g. is_num (g_val g)) (groupByCat ts)"
    using n by (simp add: groupByCat_entries all_num_def list_all_iff)
  show "sum_list (map (\<lambda>g. cell_num (g_val g)) (groupByCat ts)) = sum_list (map amount ts)"
    using s by (simp add: groupByCat_entries sum_cells_def comp_def)
  show "sorted_wrt (\<lambda>g h. cell_num (g_val h) \<le> cell_num (g_val g)) (groupByCat ts)"
    using sort_by_sorted [OF o] by (simp add: groupByCat_entries sorted_wrt_map)
  show "sum_list (map (\<lambda>g. num_value (g_percent g)) (groupByCat ts)) = 100"
    if pos: "0 < sum_list (map amount ts)"
  proof -
    have p: "0 < ?tot"
      using pos f(3) by simp
    have "map (\<lambda>g. num_value (g_percent g)) (groupByCat ts)
        = map (\<lambda>kv. cell_num (snd kv) / ?tot * 100) ?es"
      using n p by (simp add: groupByCat_entries all_num_def list_all_iff percent_of_num)
    then have "sum_list (map (\<lambda>g. num_value (g_percent g)) (groupByCat ts))
        = sum_cells ?es / ?tot * 100"
      by (simp only: sum_list_percent sum_cells_def)
    then show ?thesis
      using s f(3) pos by simp
  qed
qed

definition ex_labelled :: "string \<Rightarrow> transaction" where
  \<comment> \<open>an expense of 50 entered with a category typed into the new-category field\<close>
  "ex_labelled c = ex_tx\<lparr>category := Some c, isHomeExpense := False, accountId := Some ''a1''\<rparr>"

text \<open>
  Claim C6. The group totals are to sum to the sum of the amounts and the percents to
  100. For the one expense of 50 with the category \<^verbatim>\<open>constructor\<close> the only group holds
  a text and its percent is no number; with the category \<^verbatim>\<open>__proto__\<close> there is no
  group at all, while the amounts sum to 50.
\<close>

theorem groupByCat_inherited_member:
  "sum_list (map amount [ex_labelled ''constructor'']) = 50
   \<and> groupByCat [ex_labelled ''constructor'']
       = [\<lparr>g_name = ''constructor'', g_val = TextCell, g_percent = NaN\<rparr>]
   \<and> sum_list (map amount [ex_labelled ''__proto__'']) = 50
   \<and> groupByCat [ex_labelled ''__proto__''] = []"
  by code_simp

section \<open>Recurrence materializer\<close>

text \<open>
  \<^verbatim>\<open>ensureRecurringForMonth\<close> dates a new transaction with
  \<^verbatim>\<open>new Date(year, month, rule.day || 10, 12, 0, 0)\<close> and, when that date fell out of
  the target month, moves it with \<^verbatim>\<open>setDate(0)\<close>: \<open>clamped_date\<close>.
\<close>

definition clamped_date :: "int \<Rightarrow> int \<Rightarrow> int \<Rightarrow> jsdate" where
  "clamped_date year month d =
     (let newDate0 = newDate year month d 12 0 0
      in if getMonth newDate0 \<noteq> month then setDate newDate0 0 else newDate0)"

definition noon :: int where
  "noon = MakeTime 12 0 0 0"

lemma noon_range: "0 \<le> noon" "noon < msPerDay"
  by (simp_all add: noon_def MakeTime_def msPerDay_def)

lemma Day_newDate: "Day (newDate y m d 12 0 0) = MakeDay y m d"
  using noon_range by (simp add: newDate_def Day_MakeDate noon_def)

lemma TimeWithinDay_newDate: "TimeWithinDay (newDate y m d 12 0 0) = noon"
  using noon_range by (simp add: newDate_def TimeWithinDay_MakeDate noon_def)

lemma civil_MakeDay:
  "1 \<le> d \<Longrightarrow> d \<le> month_len (12 * (y - 1970) + m) \<Longrightarrow>
   civil (MakeDay y m d) = (12 * (y - 1970) + m, d)"
  using civil_first_day [of d "12 * (y - 1970) + m"] by (simp add: MakeDay_def)

lemma MakeDay_index:
  "MakeDay (1970 + K div 12) (K mod 12) d = first_day K + d - 1"
  by (simp add: MakeDay_def)

lemma clamped_date_index:
  assumes "1 \<le> d" and "d \<le> 31"
  shows "civil (Day (clamped_date (1970 + K div 12) (K mod 12) d)) = (K, min d (month_len K))
       \<and> TimeWithinDay (clamped_date (1970 + K div 12) (K mod 12) d) = noon"
proof (cases "d \<le> month_len K")
  case True
  have c: "civil (Day (newDate (1970 + K div 12) (K mod 12) d 12 0 0)) = (K, d)"
    using civil_first_day [OF assms(1) True] by (simp add: Day_newDate MakeDay_index)
  then have "getMonth (newDate (1970 + K div 12) (K mod 12) d 12 0 0) = K mod 12"
    by (simp add: getMonth_def)
  then show ?thesis
    using c True by (simp add: clamped_date_def TimeWithinDay_newDate)
next
  case False
  let ?nd = "newDate (1970 + K div 12) (K mod 12) d 12 0 0"
  have ml: "28 \<le> month_len K" "28 \<le> month_len (K + 1)"
    using month_len_bounds [of K] month_len_bounds [of "K + 1"] by simp_all
  have "Day ?nd = first_day (K + 1) + (d - month_len K) - 1"
    using first_day_succ [of K] by (simp add: Day_newDate MakeDay_index)
  moreover have "civil (first_day (K + 1) + (d - month_len K) - 1) = (K + 1, d - month_len K)"
    using False assms ml by (intro civil_first_day) linarith+
  ultimately have c: "civil (Day ?nd) = (K + 1, d - month_len K)"
    by simp
  have ne: "getMonth ?nd \<noteq> K mod 12"
    using c by (simp add: getMonth_def) presburger
  have idx: "12 * (getFullYear ?nd - 1970) + getMonth ?nd = K + 1"
    using c by (simp add: getFullYear_def getMonth_def)
  have "MakeDay (getFullYear ?nd) (getMonth ?nd) 0 = first_day (K + 1) + 0 - 1"
    unfolding MakeDay_def idx ..
  then have "MakeDay (getFullYear ?nd) (getMonth ?nd) 0 = first_day K + month_len K - 1"
    using first_day_succ [of K] by simp
  then have d2: "setDate ?nd 0 = MakeDate (first_day K + month_len K - 1) noon"
    by (simp add: setDate_def TimeWithinDay_newDate)
  have "civil (first_day K + month_len K - 1) = (K, month_len K)"
    using ml by (intro civil_first_day) linarith+
  then show ?thesis
    using ne False d2 noon_range
    by (simp add: clamped_date_def Day_MakeDate TimeWithinDay_MakeDate)
qed


lemma clamped_date_target:
  assumes "1 \<le> d" and "d \<le> 31"
  shows "getMonth (clamped_date (getFullYear T) (getMonth T) d) = getMonth T
       \<and> getFullYear (clamped_date (getFullYear T) (getMonth T) d) = getFullYear T
       \<and> getDate (clamped_date (getFullYear T) (getMonth T) d)
           = min d (days_in_month (getFullYear T) (getMonth T))
       \<and> TimeWithinDay (clamped_date (getFullYear T) (getMonth T) d) = noon"
  using clamped_date_index [OF assms, of "fst (civil (Day T))"]
  by (simp add: getMonth_def getFullYear_def getDate_def month_len_def)

definition effective_day :: "recurring_rule \<Rightarrow> int" where
  \<comment> \<open>\<^verbatim>\<open>rule.day || 10\<close>\<close>
  "effective_day rule = (case day rule of None \<Rightarrow> 10 | Some d \<Rightarrow> if d = 0 then 10 else d)"

definition materialized :: "ident \<Rightarrow> int \<Rightarrow> int \<Rightarrow> transaction \<Rightarrow> bool" where
  \<comment> \<open>the predicate of the existence check\<close>
  "materialized rid month year t =
     (recurringId t = Some rid \<and> getMonth (date t) = month \<and> getFullYear (date t) = year)"

definition new_recurring_tx :: "jsdate \<Rightarrow> int \<Rightarrow> int \<Rightarrow> recurring_rule \<Rightarrow> ident \<Rightarrow> transaction" where
  "new_recurring_tx now month year rule u =
     (let isReminder' = (rule_type rule = Reminder)
      in \<lparr>tx_id = u, createdAt = now, tx_type = Expense,
          amount = (if isReminder' then 0 else rule_amount rule),
          description = Some (title rule), category = Some (rule_category rule),
          date = clamped_date year month (effective_day rule),
          accountId = None, isHomeExpense = True, isPaid = Some False,
          recurringId = Some (rule_id rule), installmentId = None,
          isReminder = Some isReminder'\<rparr>)"

definition ensure_rule :: "jsdate \<Rightarrow> int \<Rightarrow> int \<Rightarrow> recurring_rule \<Rightarrow> world \<Rightarrow> world" where
  \<comment> \<open>the body of the \<^verbatim>\<open>forEach\<close>\<close>
  "ensure_rule now month year rule w =
     (if \<not> active rule then w
      else if list_ex (materialized (rule_id rule) month year) (transactions (data w)) then w
      else (case randomUUID w of (u, w1) \<Rightarrow>
              w1\<lparr>data := (data w1)\<lparr>transactions :=
                    transactions (data w1) @ [new_recurring_tx now month year rule u]\<rparr>\<rparr>))"

definition ensureRecurringForMonth :: "jsdate \<Rightarrow> jsdate \<Rightarrow> world \<Rightarrow> world" where
  "ensureRecurringForMonth now monthDate w =
     (let month = getMonth monthDate;
          year = getFullYear monthDate
      in save (fold (ensure_rule now month year) (recurring (data w)) w))"

definition addRecurring :: "jsdate \<Rightarrow> recurring_rule \<Rightarrow> world \<Rightarrow> world" where
  "addRecurring now item w =
     (case randomUUID w of (u, w1) \<Rightarrow>
        (let item1 = item\<lparr>rule_id := u, active := True\<rparr>;
             w2 = w1\<lparr>data := (data w1)\<lparr>recurring := recurring (data w1) @ [item1]\<rparr>\<rparr>;
             w3 = save w2
         in ensureRecurringForMonth now (selectedMonth (data w3)) w3))"

lemma data_save: "data (save w) = data w"
  by (simp add: save_def)

lemma ensure_rule_transactions:
  "transactions (data (ensure_rule now m y q w)) =
     transactions (data w) @
       (if active q \<and> \<not> list_ex (materialized (rule_id q) m y) (transactions (data w))
        then [new_recurring_tx now m y q (uuid_stream w (uuid_pos w))] else [])"
  by (simp add: ensure_rule_def randomUUID_def)

lemma ensure_rule_frame:
  "recurring (data (ensure_rule now m y q w)) = recurring (data w)"
  "selectedMonth (data (ensure_rule now m y q w)) = selectedMonth (data w)"
  by (simp_all add: ensure_rule_def randomUUID_def)

lemma fold_ensure_rule_frame:
  "recurring (data (fold (ensure_rule now m y) rs w)) = recurring (data w)
   \<and> selectedMonth (data (fold (ensure_rule now m y) rs w)) = selectedMonth (data w)"
  by (induction rs arbitrary: w) (simp_all add: ensure_rule_frame)

lemma new_recurring_tx_fields:
  "recurringId (new_recurring_tx now m y q u) = Some (rule_id q)"
  "date (new_recurring_tx now m y q u) = clamped_date y m (effective_day q)"
  by (simp_all add: new_recurring_tx_def Let_def)

lemma fold_ensure_rule_prefix:
  "\<exists>extra. transactions (data (fold (ensure_rule now m y) rs w)) = transactions (data w) @ extra"
proof (induction rs arbitrary: w)
  case Nil
  then show ?case by simp
next
  case (Cons q rs)
  obtain extra where "transactions (data (fold (ensure_rule now m y) rs (ensure_rule now m y q w)))
      = transactions (data (ensure_rule now m y q w)) @ extra"
    using Cons.IH by blast
  then show ?case
    by (simp add: ensure_rule_transactions)
qed

lemma fold_ensure_rule_keeps:
  assumes "list_ex P (transactions (data w))"
  shows "list_ex P (transactions (data (fold (ensure_rule now m y) rs w)))"
  using fold_ensure_rule_prefix [of now m y rs w] assms by (auto simp: list_ex_iff)

lemma fold_ensure_rule_other_ids:
  assumes "\<forall>q\<in>set rs. rule_id q \<noteq> rid"
  shows "filter (\<lambda>t. recurringId t = Some rid) (transactions (data (fold (ensure_rule now m y) rs w)))
       = filter (\<lambda>t. recurringId t = Some rid) (transactions (data w))"
  using assms
  by (induction rs arbitrary: w) (simp_all add: ensure_rule_transactions new_recurring_tx_fields)

lemma fold_ensure_rule_idle:
  assumes "list_ex (materialized rid m y) (transactions (data w))"
  shows "filter (\<lambda>t. recurringId t = Some rid) (transactions (data (fold (ensure_rule now m y) rs w)))
       = filter (\<lambda>t. recurringId t = Some rid) (transactions (data w))"
  using assms
proof (induction rs arbitrary: w)
  case Nil
  then show ?case by simp
next
  case (Cons q rs)
  have ex: "list_ex (materialized rid m y) (transactions (data (ensure_rule now m y q w)))"
    using Cons.prems by (simp add: ensure_rule_transactions)
  have "filter (\<lambda>t. recurringId t = Some rid) (transactions (data (ensure_rule now m y q w)))
      = filter (\<lambda>t. recurringId t = Some rid) (transactions (data w))"
    using Cons.prems by (auto simp: ensure_rule_transactions new_recurring_tx_fields)
  with Cons.IH [OF ex] show ?case by simp
qed

lemma fold_ensure_rule_materializes:
  assumes "r \<in> set rs" and "active r"
    and "1 \<le> effective_day r" and "effective_day r \<le> 31"
  shows "list_ex (materialized (rule_id r) (getMonth T) (getFullYear T))
           (transactions (data (fold (ensure_rule now (getMonth T) (getFullYear T)) rs w)))"
  using assms(1)
proof (induction rs arbitrary: w)
  case Nil
  then show ?case by simp
next
  case (Cons q rs)
  show ?case
  proof (cases "q = r")
    case True
    have "materialized (rule_id r) (getMonth T) (getFullYear T)
            (new_recurring_tx now (getMonth T) (getFullYear T) r u)" for u
      using clamped_date_target [OF assms(3,4), of T]
      by (simp add: materialized_def new_recurring_tx_fields)
    then have "list_ex (materialized (rule_id r) (getMonth T) (getFullYear T))
        (transactions (data (ensure_rule now (getMonth T) (getFullYear T) r w)))"
      using assms(2) by (simp add: ensure_rule_transactions)
    then show ?thesis
      using True by (simp add: fold_ensure_rule_keeps)
  next
    case False
    with Cons.prems have "r \<in> set rs" by simp
    then show ?thesis
      using Cons.IH by simp
  qed
qed

lemma fold_ensure_rule_at_most_one:
  assumes "length (filter (materialized rid m y) (transactions (data w))) \<le> 1"
  shows "length (filter (materialized rid m y)
           (transactions (data (fold (ensure_rule now m y) rs w)))) \<le> 1"
  using assms
proof (induction rs arbitrary: w)
  case Nil
  then show ?case by simp
next
  case (Cons q rs)
  have "length (filter (materialized rid m y) (transactions (data (ensure_rule now m y q w)))) \<le> 1"
  proof (cases "rule_id q = rid")
    case True
    then show ?thesis
      using Cons.prems
      by (auto simp: ensure_rule_transactions list_ex_iff filter_empty_conv)
  next
    case False
    then have "\<not> materialized rid m y (new_recurring_tx now m y q u)" for u
      by (simp add: materialized_def new_recurring_tx_fields)
    then show ?thesis
      using Cons.prems by (simp add: ensure_rule_transactions)
  qed
  from Cons.IH [OF this] show ?case by simp
qed

lemma filter_materialized_by_id:
  "filter (materialized rid m y) xs
     = filter (materialized rid m y) (filter (\<lambda>t. recurringId t = Some rid) xs)"
  by (induction xs) (auto simp: materialized_def)

lemma list_ex_materialized_length:
  "list_ex (materialized rid m y) xs \<longleftrightarrow> 1 \<le> length (filter (materialized rid m y) xs)"
  by (induction xs) auto

lemma ensureRecurringForMonth_data:
  "data (ensureRecurringForMonth now T w)
     = data (fold (ensure_rule now (getMonth T) (getFullYear T)) (recurring (data w)) w)"
  by (simp add: ensureRecurringForMonth_def data_save Let_def)

lemma fold_ensure_rule_creates:
  assumes "r \<in> set rs" and "active r" and "distinct (map rule_id rs)"
    and "\<not> list_ex (materialized (rule_id r) m y) (transactions (data w))"
  shows "\<exists>u. filter (\<lambda>t. recurringId t = Some (rule_id r))
               (transactions (data (fold (ensure_rule now m y) rs w)))
           = filter (\<lambda>t. recurringId t = Some (rule_id r)) (transactions (data w))
               @ [new_recurring_tx now m y r u]"
  using assms(1,3,4)
proof (induction rs arbitrary: w)
  case Nil
  then show ?case by simp
next
  case (Cons q rs)
  show ?case
  proof (cases "q = r")
    case True
    have others: "\<forall>q\<in>set rs. rule_id q \<noteq> rule_id r"
      using Cons.prems(2) True by (auto simp: image_iff)
    have "filter (\<lambda>t. recurringId t = Some (rule_id r))
            (transactions (data (ensure_rule now m y r w)))
        = filter (\<lambda>t. recurringId t = Some (rule_id r)) (transactions (data w))
            @ [new_recurring_tx now m y r (uuid_stream w (uuid_pos w))]"
      using assms(2) Cons.prems(3)
      by (simp add: ensure_rule_transactions new_recurring_tx_fields)
    then show ?thesis
      using True fold_ensure_rule_other_ids [OF others, of now m y "ensure_rule now m y r w"]
      by auto
  next
    case False
    then have r: "r \<in> set rs" and ne: "rule_id q \<noteq> rule_id r"
      using Cons.prems(1,2) by auto
    have nm: "\<not> materialized (rule_id r) m y (new_recurring_tx now m y q u)" for u
      using ne by (simp add: materialized_def new_recurring_tx_fields)
    have keep: "filter (\<lambda>t. recurringId t = Some (rule_id r))
            (transactions (data (ensure_rule now m y q w)))
        = filter (\<lambda>t. recurringId t = Some (rule_id r)) (transactions (data w))"
      using ne by (simp add: ensure_rule_transactions new_recurring_tx_fields)
    have "\<not> list_ex (materialized (rule_id r) m y) (transactions (data (ensure_rule now m y q w)))"
      using Cons.prems(3) nm by (simp add: ensure_rule_transactions)
    from Cons.IH [OF r _ this] Cons.prems(2) keep show ?thesis
      by simp
  qed
qed

text \<open>
  Claim C2. For every store state, every active rule of it whose day is within 1..31
  (as the data model has it; an unset day counts as 10) and every target month, after
  two calls of \<open>ensureRecurringForMonth\<close> in succession a transaction of that rule
  dated in the target month and year exists, the second call has added no transaction
  of that rule, and exactly one such transaction exists whenever the store held at
  most one before the calls.
\<close>

theorem ensureRecurringForMonth_idempotent:
  assumes "r \<in> set (recurring (data w))" and "active r"
    and "1 \<le> effective_day r" and "effective_day r \<le> 31"
  shows "filter (\<lambda>t. recurringId t = Some (rule_id r))
           (transactions (data
              (ensureRecurringForMonth now2 T (ensureRecurringForMonth now1 T w))))
         = filter (\<lambda>t. recurringId t = Some (rule_id r))
           (transactions (data (ensureRecurringForMonth now1 T w)))
       \<and> 1 \<le> length (filter (materialized (rule_id r) (getMonth T) (getFullYear T))
           (transactions (data
              (ensureRecurringForMonth now2 T (ensureRecurringForMonth now1 T w)))))
       \<and> (length (filter (materialized (rule_id r) (getMonth T) (getFullYear T))
             (transactions (data w))) \<le> 1
          \<longrightarrow> length (filter (materialized (rule_id r) (getMonth T) (getFullYear T))
             (transactions (data
                (ensureRecurringForMonth now2 T (ensureRecurringForMonth now1 T w))))) = 1)"
proof -
  let ?m = "getMonth T" and ?y = "getFullYear T"
  let ?w1 = "ensureRecurringForMonth now1 T w"
  let ?w2 = "ensureRecurringForMonth now2 T ?w1"
  have ex1: "list_ex (materialized (rule_id r) ?m ?y) (transactions (data ?w1))"
    using fold_ensure_rule_materializes [OF assms(1-4)]
    by (simp add: ensureRecurringForMonth_data)
  have same: "filter (\<lambda>t. recurringId t = Some (rule_id r)) (transactions (data ?w2))
      = filter (\<lambda>t. recurringId t = Some (rule_id r)) (transactions (data ?w1))"
    using fold_ensure_rule_idle [OF ex1]
    by (simp add: ensureRecurringForMonth_data [of now2])
  have eq: "filter (materialized (rule_id r) ?m ?y) (transactions (data ?w2))
      = filter (materialized (rule_id r) ?m ?y) (transactions (data ?w1))"
    using same filter_materialized_by_id by metis
  have ge: "1 \<le> length (filter (materialized (rule_id r) ?m ?y) (transactions (data ?w1)))"
    using ex1 by (simp add: list_ex_materialized_length)
  have le: "length (filter (materialized (rule_id r) ?m ?y) (transactions (data ?w1))) \<le> 1"
    if "length (filter (materialized (rule_id r) ?m ?y) (transactions (data w))) \<le> 1"
    using fold_ensure_rule_at_most_one [OF that]
    by (simp add: ensureRecurringForMonth_data)
  show ?thesis
    using same ge le by (simp only: eq) auto
qed

definition ex_rule :: recurring_rule where
  "ex_rule = \<lparr>rule_id = ''r1'', title = ''Aluguel'', rule_category = ''Aluguel'',
              rule_amount = 150, day = Some 30, rule_type = Fixed, active = True\<rparr>"

definition ex_world :: world where
  "ex_world = \<lparr>data = ex_data\<lparr>recurring := [ex_rule]\<rparr>,
               localStorage = \<lparr>st_transactions = None, st_customCategories = None,
                 st_homeCategories = None, st_accounts = None, st_recurring = None\<rparr>,
               uuid_stream = (\<lambda>n. replicate (Suc n) CHR ''u''), uuid_pos = 0\<rparr>"

definition feb_1970 :: jsdate where
  \<comment> \<open>1 February 1970, 00:00\<close>
  "feb_1970 = 2678400000"

lemma feb_1970_fields: "getMonth feb_1970 = 1" "getFullYear feb_1970 = 1970"
  by code_simp+

theorem ensureRecurringForMonth_idempotent_witness:
  "ex_rule \<in> set (recurring (data ex_world)) \<and> active ex_rule
   \<and> 1 \<le> effective_day ex_rule \<and> effective_day ex_rule \<le> 31
   \<and> length (filter (materialized (rule_id ex_rule) (getMonth feb_1970) (getFullYear feb_1970))
        (transactions (data ex_world))) \<le> 1
   \<and> length (filter (materialized ''r1'' 1 1970)
        (transactions (data
           (ensureRecurringForMonth 0 feb_1970 (ensureRecurringForMonth 0 feb_1970 ex_world))))) = 1"
proof -
  have h: "ex_rule \<in> set (recurring (data ex_world))" "active ex_rule"
    "1 \<le> effective_day ex_rule" "effective_day ex_rule \<le> 31"
    "length (filter (materialized (rule_id ex_rule) (getMonth feb_1970) (getFullYear feb_1970))
        (transactions (data ex_world))) \<le> 1"
    by (simp_all add: ex_world_def ex_data_def ex_rule_def effective_day_def)
  have id: "rule_id ex_rule = ''r1''"
    by (simp add: ex_rule_def)
  show ?thesis
    using h ensureRecurringForMonth_idempotent [OF h(1-4), of 0 feb_1970 0]
    by (simp add: feb_1970_fields id)
qed

text \<open>
  Claim C3. For an active rule with unique id, not yet materialized in the target
  month, whose day (at most 31, as the data model has it) does not exist in the
  target month, \<open>ensureRecurringForMonth\<close> adds exactly one transaction of that rule,
  dated in the target month and year on its last day.
\<close>

theorem ensureRecurringForMonth_clamps_to_month_end:
  assumes "r \<in> set (recurring (data w))" and "active r"
    and "distinct (map rule_id (recurring (data w)))"
    and "\<not> list_ex (materialized (rule_id r) (getMonth T) (getFullYear T)) (transactions (data w))"
    and "days_in_month (getFullYear T) (getMonth T) < effective_day r"
    and "effective_day r \<le> 31"
  shows "\<exists>t. filter (\<lambda>t. recurringId t = Some (rule_id r))
               (transactions (data (ensureRecurringForMonth now T w)))
           = filter (\<lambda>t. recurringId t = Some (rule_id r)) (transactions (data w)) @ [t]
         \<and> getFullYear (date t) = getFullYear T
         \<and> getMonth (date t) = getMonth T
         \<and> getDate (date t) = days_in_month (getFullYear T) (getMonth T)"
proof -
  let ?m = "getMonth T" and ?y = "getFullYear T"
  obtain u where u: "filter (\<lambda>t. recurringId t = Some (rule_id r))
               (transactions (data (ensureRecurringForMonth now T w)))
           = filter (\<lambda>t. recurringId t = Some (rule_id r)) (transactions (data w))
               @ [new_recurring_tx now ?m ?y r u]"
    using fold_ensure_rule_creates [OF assms(1-4), of now]
    by (auto simp: ensureRecurringForMonth_data)
  have "28 \<le> days_in_month ?y ?m"
    by (simp add: days_in_month_def)
  with assms(5) have d: "1 \<le> effective_day r"
    by linarith
  have "getMonth (date (new_recurring_tx now ?m ?y r u)) = ?m
      \<and> getFullYear (date (new_recurring_tx now ?m ?y r u)) = ?y
      \<and> getDate (date (new_recurring_tx now ?m ?y r u)) = days_in_month ?y ?m"
    using clamped_date_target [OF d assms(6), of T] assms(5)
    by (simp add: new_recurring_tx_fields)
  with u show ?thesis by blast
qed

theorem ensureRecurringForMonth_clamps_to_month_end_witness:
  "ex_rule \<in> set (recurring (data ex_world)) \<and> active ex_rule
   \<and> distinct (map rule_id (recurring (data ex_world)))
   \<and> \<not> list_ex (materialized (rule_id ex_rule) (getMonth feb_1970) (getFullYear feb_1970))
         (transactions (data ex_world))
   \<and> days_in_month (getFullYear feb_1970) (getMonth feb_1970) < effective_day ex_rule
   \<and> effective_day ex_rule = 30
   \<and> (\<exists>t. filter (\<lambda>t. recurringId t = Some ''r1'')
               (transactions (data (ensureRecurringForMonth 0 feb_1970 ex_world))) = [t]
         \<and> getFullYear (date t) = 1970 \<and> getMonth (date t) = 1 \<and> getDate (date t) = 28)"
proof -
  have h: "ex_rule \<in> set (recurring (data ex_world))" "active ex_rule"
    "distinct (map rule_id (recurring (data ex_world)))"
    "\<not> list_ex (materialized (rule_id ex_rule) (getMonth feb_1970) (getFullYear feb_1970))
         (transactions (data ex_world))"
    "days_in_month (getFullYear feb_1970) (getMonth feb_1970) < effective_day ex_rule"
    "effective_day ex_rule \<le> 31"
    by (simp_all add: ex_world_def ex_data_def ex_rule_def effective_day_def feb_1970_fields
        days_in_month_def is_leap_def)
  have e: "effective_day ex_rule = 30" "rule_id ex_rule = ''r1''"
    "transactions (data ex_world) = []"
    "days_in_month 1970 1 = 28"
    by (simp_all add: ex_world_def ex_data_def ex_rule_def effective_day_def feb_1970_fields
        days_in_month_def is_leap_def)
  show ?thesis
    using h e(1) ensureRecurringForMonth_clamps_to_month_end [OF h, of 0]
    by (simp add: e feb_1970_fields)
qed

text \<open>
  Claim C9. \<open>addRecurring\<close> appends the rule with a fresh id and \<open>active = true\<close> and
  then runs \<open>ensureRecurringForMonth\<close> for the selected month: when the rule's day is
  within 1..31 (an unset day counts as 10), a transaction of the new rule dated in the
  selected month and year exists in the store it returns.
\<close>

theorem addRecurring_materializes:
  assumes "1 \<le> effective_day item" and "effective_day item \<le> 31"
  shows "recurring (data (addRecurring now item w))
           = recurring (data w) @ [item\<lparr>rule_id := uuid_stream w (uuid_pos w), active := True\<rparr>]
       \<and> list_ex (materialized (uuid_stream w (uuid_pos w))
             (getMonth (selectedMonth (data w))) (getFullYear (selectedMonth (data w))))
           (transactions (data (addRecurring now item w)))"
proof -
  let ?u = "uuid_stream w (uuid_pos w)"
  let ?item = "item\<lparr>rule_id := ?u, active := True\<rparr>"
  let ?w3 = "save (w\<lparr>uuid_pos := Suc (uuid_pos w),
                    data := (data w)\<lparr>recurring := recurring (data w) @ [?item]\<rparr>\<rparr>)"
  let ?T = "selectedMonth (data w)"
  have ar: "addRecurring now item w = ensureRecurringForMonth now ?T ?w3"
    by (simp add: addRecurring_def randomUUID_def Let_def data_save)
  have rec: "recurring (data ?w3) = recurring (data w) @ [?item]"
    by (simp add: data_save)
  have mem: "?item \<in> set (recurring (data ?w3))"
    by (simp add: rec)
  have act: "active ?item" and id: "rule_id ?item = ?u"
    by simp_all
  have dy: "1 \<le> effective_day ?item" "effective_day ?item \<le> 31"
    using assms by (simp_all add: effective_day_def)
  have "list_ex (materialized (rule_id ?item) (getMonth ?T) (getFullYear ?T))
          (transactions (data (ensureRecurringForMonth now ?T ?w3)))"
    using fold_ensure_rule_materializes [OF mem act dy, of ?T now ?w3]
    by (simp only: ensureRecurringForMonth_data)
  moreover have "recurring (data (ensureRecurringForMonth now ?T ?w3)) = recurring (data ?w3)"
    by (simp add: ensureRecurringForMonth_data fold_ensure_rule_frame)
  ultimately show ?thesis
    by (simp only: ar rec id)
qed

theorem addRecurring_materializes_witness:
  "1 \<le> effective_day ex_rule \<and> effective_day ex_rule \<le> 31
   \<and> recurring (data (addRecurring 0 ex_rule (ex_world\<lparr>data := ex_data\<rparr>)))
       = [ex_rule\<lparr>rule_id := ''u'', active := True\<rparr>]
   \<and> list_ex (materialized ''u'' 0 1970)
       (transactions (data (addRecurring 0 ex_rule (ex_world\<lparr>data := ex_data\<rparr>))))"
proof -
  have h: "1 \<le> effective_day ex_rule" "effective_day ex_rule \<le> 31"
    by (simp_all add: ex_rule_def effective_day_def)
  have e: "uuid_stream ex_world (uuid_pos ex_world) = ''u''"
    "recurring ex_data = []" "selectedMonth ex_data = 0"
    by (simp_all add: ex_world_def ex_data_def)
  have z: "getMonth 0 = 0" "getFullYear 0 = 1970"
    by code_simp+
  show ?thesis
    using h addRecurring_materializes [OF h, of 0 "ex_world\<lparr>data := ex_data\<rparr>"]
    by (simp add: e z)
qed

section \<open>Household expense form and installments\<close>

text \<open>
  \<^verbatim>\<open>Actions.submitHomeExpense\<close> reads its inputs from the form: they are the record
  \<open>home_form\<close>, with \<^verbatim>\<open>parseFloat\<close> and \<^verbatim>\<open>parseInt\<close> already applied (\<open>None\<close> is
  \<^verbatim>\<open>NaN\<close>). Template strings need the decimal digits of an integer.
\<close>

definition digit_char :: "nat \<Rightarrow> char" where
  "digit_char n = ''0123456789'' ! n"

fun string_of_nat :: "nat \<Rightarrow> string" where
  "string_of_nat n =
     (if n < 10 then [digit_char n] else string_of_nat (n div 10) @ [digit_char (n mod 10)])"

declare string_of_nat.simps [simp del]

definition string_of_int :: "int \<Rightarrow> string" where
  "string_of_int i = (if i < 0 then CHR ''-'' # string_of_nat (nat (- i)) else string_of_nat (nat i))"

record home_form =
  inp_home_type :: string
  inp_home_amount :: "rat option"
  inp_home_cat :: string
  inp_is_paid :: bool
  inp_recur_day :: "int option"
  inp_remind_day :: "int option"
  inp_install_qty :: "int option"
  inp_install_mode :: string

definition int_or :: "int \<Rightarrow> int option \<Rightarrow> int" where
  \<comment> \<open>\<^verbatim>\<open>parseInt(s) || dflt\<close>: \<open>None\<close> is \<^verbatim>\<open>NaN\<close>\<close>
  "int_or dflt x = (case x of None \<Rightarrow> dflt | Some v \<Rightarrow> if v = 0 then dflt else v)"

definition falsy_num :: "rat option \<Rightarrow> bool" where
  \<comment> \<open>\<^verbatim>\<open>!amount\<close> on the result of \<^verbatim>\<open>parseFloat\<close>\<close>
  "falsy_num x = (x = None \<or> x = Some 0)"

definition blank_tx :: transaction where
  \<comment> \<open>an object literal before its properties are given: optional ones are absent\<close>
  "blank_tx = \<lparr>tx_id = [], createdAt = 0, tx_type = Expense, amount = 0,
               description = None, category = None, date = 0, accountId = None,
               isHomeExpense = False, isPaid = None, recurringId = None,
               installmentId = None, isReminder = None\<rparr>"

definition addTransaction :: "jsdate \<Rightarrow> transaction \<Rightarrow> world \<Rightarrow> world" where
  "addTransaction now t w =
     (case randomUUID w of (u, w1) \<Rightarrow>
        save (w1\<lparr>data := (data w1)\<lparr>transactions :=
                 transactions (data w1) @ [t\<lparr>tx_id := u, createdAt := now\<rparr>]\<rparr>\<rparr>))"

definition installment_tx ::
  "string \<Rightarrow> rat \<Rightarrow> int \<Rightarrow> int \<Rightarrow> int \<Rightarrow> int \<Rightarrow> bool \<Rightarrow> ident \<Rightarrow> nat \<Rightarrow> transaction" where
  \<comment> \<open>the object passed to \<^verbatim>\<open>addTransaction\<close> in round \<open>i\<close> of the loop\<close>
  "installment_tx category' parcelValue qty startYear startMonth day' isPaid' groupId i =
     blank_tx\<lparr>tx_type := Expense,
              amount := parcelValue,
              category := Some (category' @ '' ('' @ string_of_int (int i + 1) @ ''/''
                                 @ string_of_int qty @ '')''),
              date := newDate startYear (startMonth + int i) day' 12 0 0,
              isHomeExpense := True,
              isPaid := Some (if i = 0 then isPaid' else False),
              installmentId := Some groupId\<rparr>"

definition submitHomeExpense :: "jsdate \<Rightarrow> home_form \<Rightarrow> world \<Rightarrow> world" where
  "submitHomeExpense now f w =
     (let type' = inp_home_type f;
          amount' = inp_home_amount f;
          category' = inp_home_cat f;
          isPaid' = inp_is_paid f
      in if type' \<noteq> ''reminder'' \<and> falsy_num amount' then w
         else if type' = ''recur'' then
           addRecurring now
             \<lparr>rule_id = [], title = category', rule_category = category',
              rule_amount = or_zero amount', day = Some (int_or 10 (inp_recur_day f)),
              rule_type = Fixed, active = False\<rparr> w
         else if type' = ''reminder'' then
           addRecurring now
             \<lparr>rule_id = [], title = category', rule_category = category',
              rule_amount = 0, day = Some (int_or 10 (inp_remind_day f)),
              rule_type = Reminder, active = False\<rparr> w
         else if type' = ''install'' then
           (let qty = int_or 2 (inp_install_qty f);
                mode = inp_install_mode f;
                parcelValue = (if mode = ''total'' then or_zero amount' / of_int qty
                               else or_zero amount');
                baseDate = selectedMonth (data w);
                startMonth = getMonth baseDate;
                startYear = getFullYear baseDate;
                day' = (if getDate baseDate > 28 then 1 else getDate baseDate)
            in case randomUUID w of (groupId, w1) \<Rightarrow>
                 fold (\<lambda>i. addTransaction now
                         (installment_tx category' parcelValue qty startYear startMonth day'
                            isPaid' groupId i))
                   [0..<nat qty] w1)
         else
           addTransaction now
             (blank_tx\<lparr>tx_type := Expense, amount := or_zero amount',
                       category := Some category', date := selectedMonth (data w),
                       isHomeExpense := True, isPaid := Some isPaid'\<rparr>) w)"

definition ex_form :: home_form where
  "ex_form = \<lparr>inp_home_type = ''install'', inp_home_amount = Some 1200,
              inp_home_cat = ''Sofa'', inp_is_paid = True, inp_recur_day = None,
              inp_remind_day = None, inp_install_qty = Some 3, inp_install_mode = ''total''\<rparr>"

definition jan30_1970 :: jsdate where
  "jan30_1970 = 2505600000"

definition spec_installment_day :: "jsdate \<Rightarrow> int" where
  \<comment> \<open>the claim's words: the base date's day of the month, clamped to at most 28\<close>
  "spec_installment_day baseDate = min (getDate baseDate) 28"

lemma roll_valid: "1 \<le> snd (roll k d) \<and> snd (roll k d) \<le> month_len (fst (roll k d))"
proof (induction k d rule: roll.induct)
  case (1 k d)
  show ?case
  proof (cases "d < 1")
    case True
    with 1(1) show ?thesis
      using roll.simps [of k d] by simp
  next
    case False
    show ?thesis
    proof (cases "month_len k < d")
      case True
      with False 1(2) show ?thesis
        using roll.simps [of k d] by simp
    next
      case b: False
      with False show ?thesis
        using roll.simps [of k d] by simp
    qed
  qed
qed

lemma getDate_range: "1 \<le> getDate t \<and> getDate t \<le> 31"
  using roll_valid [of 0 "Day t + 1"] month_len_bounds [of "fst (roll 0 (Day t + 1))"]
  by (simp add: getDate_def civil_def)

lemma installment_date:
  assumes "d0 = (if getDate B > 28 then 1 else getDate B)"
  shows "12 * getFullYear (newDate (getFullYear B) (getMonth B + int k) d0 12 0 0)
           + getMonth (newDate (getFullYear B) (getMonth B + int k) d0 12 0 0)
         = 12 * getFullYear B + getMonth B + int k
       \<and> getDate (newDate (getFullYear B) (getMonth B + int k) d0 12 0 0) = d0
       \<and> TimeWithinDay (newDate (getFullYear B) (getMonth B + int k) d0 12 0 0) = noon"
proof -
  let ?K = "12 * (getFullYear B - 1970) + (getMonth B + int k)"
  have d: "1 \<le> d0" "d0 \<le> month_len ?K"
    using assms getDate_range [of B] month_len_bounds [of ?K] by (auto split: if_splits)
  have "civil (Day (newDate (getFullYear B) (getMonth B + int k) d0 12 0 0)) = (?K, d0)"
    using civil_MakeDay [OF d] by (simp add: Day_newDate)
  then show ?thesis
    by (simp add: getFullYear_def getMonth_def getDate_def TimeWithinDay_newDate)
qed

lemma addTransaction_transactions:
  "transactions (data (addTransaction now t w))
     = transactions (data w) @ [t\<lparr>tx_id := uuid_stream w (uuid_pos w), createdAt := now\<rparr>]"
  by (simp add: addTransaction_def randomUUID_def data_save)

lemma fold_addTransaction:
  "\<exists>ids. length ids = length js
     \<and> transactions (data (fold (\<lambda>i. addTransaction now (g i)) js w))
         = transactions (data w) @ map (\<lambda>(i, u). (g i)\<lparr>tx_id := u, createdAt := now\<rparr>) (zip js ids)"
proof (induction js arbitrary: w)
  case Nil
  then show ?case by simp
next
  case (Cons j js)
  obtain ids where ids: "length ids = length js"
    "transactions (data (fold (\<lambda>i. addTransaction now (g i)) js (addTransaction now (g j) w)))
       = transactions (data (addTransaction now (g j) w))
           @ map (\<lambda>(i, u). (g i)\<lparr>tx_id := u, createdAt := now\<rparr>) (zip js ids)"
    using Cons.IH by blast
  show ?case
    using ids
    by (intro exI [of _ "uuid_stream w (uuid_pos w) # ids"])
      (simp add: addTransaction_transactions)
qed

lemma installment_tx_fields:
  "tx_type (installment_tx c p q sy sm d paid g i) = Expense"
  "isHomeExpense (installment_tx c p q sy sm d paid g i)"
  "installmentId (installment_tx c p q sy sm d paid g i) = Some g"
  "category (installment_tx c p q sy sm d paid g i)
     = Some (c @ '' ('' @ string_of_int (int i + 1) @ ''/'' @ string_of_int q @ '')'')"
  "amount (installment_tx c p q sy sm d paid g i) = p"
  "isPaid (installment_tx c p q sy sm d paid g i) = Some (if i = 0 then paid else False)"
  "date (installment_tx c p q sy sm d paid g i) = newDate sy (sm + int i) d 12 0 0"
  by (simp_all add: installment_tx_def blank_tx_def)

lemma submitHomeExpense_install:
  assumes "inp_home_type f = ''install''" and "inp_home_amount f = Some a" and "a \<noteq> 0"
  shows "submitHomeExpense now f w =
     fold (\<lambda>i. addTransaction now
             (installment_tx (inp_home_cat f)
                (if inp_install_mode f = ''total'' then a / of_int (int_or 2 (inp_install_qty f)) else a)
                (int_or 2 (inp_install_qty f))
                (getFullYear (selectedMonth (data w))) (getMonth (selectedMonth (data w)))
                (if getDate (selectedMonth (data w)) > 28 then 1 else getDate (selectedMonth (data w)))
                (inp_is_paid f) (uuid_stream w (uuid_pos w)) i))
       [0..<nat (int_or 2 (inp_install_qty f))] (w\<lparr>uuid_pos := Suc (uuid_pos w)\<rparr>)"
  using assms
  by (simp add: submitHomeExpense_def falsy_num_def or_zero_def randomUUID_def Let_def)


text \<open>
  Claim C8. As stated, the installments are dated on the base date's day of the month
  clamped to at most 28. The program takes day 1 instead when the base date's day is
  past 28: a request made on 30 January is dated on the 1st of each month, not the
  28th.
\<close>

theorem submitHomeExpense_day_after_28:
  "getDate jan30_1970 = 30
   \<and> spec_installment_day jan30_1970 = 28
   \<and> map (\<lambda>t. getDate (date t))
        (transactions (data (submitHomeExpense 0 ex_form
           (ex_world\<lparr>data := ex_data\<lparr>selectedMonth := jan30_1970\<rparr>\<rparr>)))) = [1, 1, 1]"
  by code_simp

text \<open>
  Claim C8, amended. An installment request with a non-zero amount and \<open>n \<ge> 1\<close>
  installments (an empty or zero quantity counts as 2) appends exactly \<open>n\<close> expense
  transactions to the store, the \<open>k\<close>-th of them (\<open>k = 1..n\<close>) dated at noon in the
  \<open>k\<close>-th consecutive month starting at the base month, on the base date's day of the
  month when that is at most 28 and on day 1 otherwise; all carry the same
  \<open>installmentId\<close> and the household flag; the category is the given one followed by
  \<^verbatim>\<open> (k/n)\<close>; the amount is the given amount divided by \<open>n\<close> in \<^verbatim>\<open>total\<close> mode and
  the given amount otherwise; the first carries the given paid flag, the others are
  unpaid.
\<close>

theorem submitHomeExpense_installments:
  assumes "inp_home_type f = ''install''" and "inp_home_amount f = Some a" and "a \<noteq> 0"
    and "1 \<le> int_or 2 (inp_install_qty f)"
  shows "\<exists>new. transactions (data (submitHomeExpense now f w)) = transactions (data w) @ new
     \<and> int (length new) = int_or 2 (inp_install_qty f)
     \<and> (\<forall>k<length new.
           tx_type (new ! k) = Expense
         \<and> isHomeExpense (new ! k)
         \<and> installmentId (new ! k) = Some (uuid_stream w (uuid_pos w))
         \<and> category (new ! k)
             = Some (inp_home_cat f @ '' ('' @ string_of_int (int k + 1) @ ''/''
                       @ string_of_int (int_or 2 (inp_install_qty f)) @ '')'')
         \<and> amount (new ! k)
             = (if inp_install_mode f = ''total''
                then a / of_int (int_or 2 (inp_install_qty f)) else a)
         \<and> isPaid (new ! k) = Some (if k = 0 then inp_is_paid f else False)
         \<and> 12 * getFullYear (date (new ! k)) + getMonth (date (new ! k))
             = 12 * getFullYear (selectedMonth (data w)) + getMonth (selectedMonth (data w)) + int k
         \<and> getDate (date (new ! k))
             = (if getDate (selectedMonth (data w)) > 28 then 1
                else getDate (selectedMonth (data w)))
         \<and> TimeWithinDay (date (new ! k)) = noon)"
proof -
  let ?n = "int_or 2 (inp_install_qty f)"
  let ?B = "selectedMonth (data w)"
  let ?d0 = "if getDate ?B > 28 then 1 else getDate ?B"
  let ?g = "installment_tx (inp_home_cat f)
                (if inp_install_mode f = ''total'' then a / of_int ?n else a)
                ?n (getFullYear ?B) (getMonth ?B) ?d0
                (inp_is_paid f) (uuid_stream w (uuid_pos w))"
  let ?w1 = "w\<lparr>uuid_pos := Suc (uuid_pos w)\<rparr>"
  obtain ids where ids: "length ids = length [0..<nat ?n]"
    "transactions (data (fold (\<lambda>i. addTransaction now (?g i)) [0..<nat ?n] ?w1))
       = transactions (data ?w1)
           @ map (\<lambda>(i, u). (?g i)\<lparr>tx_id := u, createdAt := now\<rparr>) (zip [0..<nat ?n] ids)"
    using fold_addTransaction [of "[0..<nat ?n]" now ?g ?w1] by blast
  let ?new = "map (\<lambda>(i, u). (?g i)\<lparr>tx_id := u, createdAt := now\<rparr>) (zip [0..<nat ?n] ids)"
  have txs: "transactions (data (submitHomeExpense now f w)) = transactions (data w) @ ?new"
    using ids(2) by (simp add: submitHomeExpense_install [OF assms(1-3)])
  have len: "length ?new = nat ?n"
    using ids(1) by simp
  have nth: "?new ! k = (?g k)\<lparr>tx_id := ids ! k, createdAt := now\<rparr>" if "k < nat ?n" for k
    using that ids(1) by simp
  have fields: "tx_type (?new ! k) = Expense
         \<and> isHomeExpense (?new ! k)
         \<and> installmentId (?new ! k) = Some (uuid_stream w (uuid_pos w))
         \<and> category (?new ! k)
             = Some (inp_home_cat f @ '' ('' @ string_of_int (int k + 1) @ ''/''
                       @ string_of_int ?n @ '')'')
         \<and> amount (?new ! k) = (if inp_install_mode f = ''total'' then a / of_int ?n else a)
         \<and> isPaid (?new ! k) = Some (if k = 0 then inp_is_paid f else False)
         \<and> 12 * getFullYear (date (?new ! k)) + getMonth (date (?new ! k))
             = 12 * getFullYear ?B + getMonth ?B + int k
         \<and> getDate (date (?new ! k)) = ?d0
         \<and> TimeWithinDay (date (?new ! k)) = noon" if "k < nat ?n" for k
    using installment_date [of ?d0 ?B k]
    by (simp only: nth [OF that]) (simp add: installment_tx_fields)
  have "int (length ?new) = ?n"
    using len assms(4) by simp
  with txs fields len show ?thesis
    by (intro exI [of _ ?new]) simp
qed


text \<open>
  The specification's scenario: 1200 in \<^verbatim>\<open>total\<close> mode over 3 installments from January
  1970 gives three transactions of 400 in January, February and March, labelled
  \<^verbatim>\<open>(1/3)\<close> to \<^verbatim>\<open>(3/3)\<close>.
\<close>

theorem submitHomeExpense_installments_witness:
  "inp_home_type ex_form = ''install'' \<and> inp_home_amount ex_form = Some 1200
   \<and> (1200 :: rat) \<noteq> 0 \<and> 1 \<le> int_or 2 (inp_install_qty ex_form)
   \<and> (\<exists>new. transactions (data (submitHomeExpense 0 ex_form (ex_world\<lparr>data := ex_data\<rparr>))) = new
        \<and> length new = 3
        \<and> amount (new ! 2) = 400
        \<and> category (new ! 2) = Some ''Sofa (3/3)''
        \<and> isPaid (new ! 0) = Some True
        \<and> isPaid (new ! 2) = Some False
        \<and> 12 * getFullYear (date (new ! 2)) + getMonth (date (new ! 2)) = 12 * 1970 + 2
        \<and> getDate (date (new ! 2)) = 1)"
proof -
  let ?w = "ex_world\<lparr>data := ex_data\<rparr>"
  have h: "inp_home_type ex_form = ''install''" "inp_home_amount ex_form = Some 1200"
    "(1200 :: rat) \<noteq> 0" "1 \<le> int_or 2 (inp_install_qty ex_form)"
    by (simp_all add: ex_form_def int_or_def)
  have e: "int_or 2 (inp_install_qty ex_form) = 3" "inp_install_mode ex_form = ''total''"
    "inp_home_cat ex_form = ''Sofa''" "inp_is_paid ex_form = True"
    "transactions (data ?w) = []" "selectedMonth (data ?w) = 0" "selectedMonth ex_data = 0"
    by (simp_all add: ex_form_def int_or_def ex_world_def ex_data_def)
  have s: "string_of_int 3 = ''3''"
    by code_simp
  have z: "getFullYear 0 = 1970" "getMonth 0 = 0" "getDate 0 = 1"
    by code_simp+
  obtain new where n: "transactions (data (submitHomeExpense 0 ex_form ?w)) = transactions (data ?w) @ new"
    "int (length new) = int_or 2 (inp_install_qty ex_form)"
    "\<forall>k<length new.
           tx_type (new ! k) = Expense
         \<and> isHomeExpense (new ! k)
         \<and> installmentId (new ! k) = Some (uuid_stream ?w (uuid_pos ?w))
         \<and> category (new ! k)
             = Some (inp_home_cat ex_form @ '' ('' @ string_of_int (int k + 1) @ ''/''
                       @ string_of_int (int_or 2 (inp_install_qty ex_form)) @ '')'')
         \<and> amount (new ! k)
             = (if inp_install_mode ex_form = ''total''
                then 1200 / of_int (int_or 2 (inp_install_qty ex_form)) else 1200)
         \<and> isPaid (new ! k) = Some (if k = 0 then inp_is_paid ex_form else False)
         \<and> 12 * getFullYear (date (new ! k)) + getMonth (date (new ! k))
             = 12 * getFullYear (selectedMonth (data ?w)) + getMonth (selectedMonth (data ?w)) + int k
         \<and> getDate (date (new ! k))
             = (if getDate (selectedMonth (data ?w)) > 28 then 1
                else getDate (selectedMonth (data ?w)))
         \<and> TimeWithinDay (date (new ! k)) = noon"
    using submitHomeExpense_installments [OF h, of 0 ?w] by blast
  have len: "length new = 3"
    using n(2) by (simp add: e)
  have k2: "amount (new ! 2) = 400" "category (new ! 2) = Some ''Sofa (3/3)''"
    "isPaid (new ! 2) = Some False"
    "12 * getFullYear (date (new ! 2)) + getMonth (date (new ! 2)) = 12 * 1970 + 2"
    "getDate (date (new ! 2)) = 1"
    using n(3) [rule_format, of 2] len by (simp_all add: e s z)
  have k0: "isPaid (new ! 0) = Some True"
    using n(3) [rule_format, of 0] len by (simp add: e)
  have "transactions (data (submitHomeExpense 0 ex_form ?w)) = new"
    using n(1) by (simp only: e append_Nil)
  with h len k2 k0 show ?thesis
    by (intro conjI exI [of _ new]) simp_all
qed

section \<open>Backup codec\<close>

text \<open>
  \<^verbatim>\<open>loadBackupData\<close> assigns what \<^verbatim>\<open>JSON.parse\<close> returned to \<^verbatim>\<open>Store.data\<close> without
  looking at its shape, so in this section the store is a JSON value and not the
  typed record of the other sections. \<^verbatim>\<open>JSON.parse\<close> is the platform's: its outcome on
  the blob is the argument \<open>parsed\<close>, \<open>None\<close> when it throws. A storage item holds the
  value whose \<^verbatim>\<open>JSON.stringify\<close> was written.

  \<^verbatim>\<open>save()\<close> writes five items and then re-renders the current view. The views are
  outside the model: whether the re-render completes on a given store is the
  parameter \<open>render\<close>. Whatever is thrown inside the \<^verbatim>\<open>try\<close> block makes
  \<^verbatim>\<open>loadBackupData\<close> return false; when that happens after the assignment, the store
  stays replaced.

  Reading a property of \<^verbatim>\<open>null\<close> throws; on a number, a boolean, a string or an array
  the property names read here are undefined; on an object the last of several equal
  keys counts.
\<close>

datatype json =
    JNull
  | JBool bool
  | JNum rat
  | JStr string
  | JArr "json list"
  | JObj "(string \<times> json) list"

datatype jsval = Undefined | Val json

datatype js_error = SyntaxError | TypeError | FormatError | RenderError

fun truthy :: "jsval \<Rightarrow> bool" where
  "truthy Undefined = False"
| "truthy (Val JNull) = False"
| "truthy (Val (JBool b)) = b"
| "truthy (Val (JNum n)) = (n \<noteq> 0)"
| "truthy (Val (JStr s)) = (s \<noteq> [])"
| "truthy (Val (JArr xs)) = True"
| "truthy (Val (JObj kvs)) = True"

fun get_prop :: "json \<Rightarrow> string \<Rightarrow> js_error + jsval" where
  "get_prop JNull k = Inl TypeError"
| "get_prop (JObj kvs) k = Inr (case map_of (rev kvs) k of None \<Rightarrow> Undefined | Some v \<Rightarrow> Val v)"
| "get_prop (JBool b) k = Inr Undefined"
| "get_prop (JNum n) k = Inr Undefined"
| "get_prop (JStr s) k = Inr Undefined"
| "get_prop (JArr xs) k = Inr Undefined"

record codec_world =
  store_json :: json
  local_items :: "(string \<times> jsval) list"

definition saved_keys :: "(string \<times> string) list" where
  "saved_keys =
     [(''st_transactions'', ''transactions''),
      (''st_customCategories'', ''customCategories''),
      (''st_homeCategories'', ''homeCategories''),
      (''st_accounts'', ''accounts''),
      (''st_recurring'', ''recurring'')]"

fun write_items ::
  "(string \<times> string) list \<Rightarrow> json \<Rightarrow> (string \<times> jsval) list
     \<Rightarrow> js_error option \<times> (string \<times> jsval) list" where
  "write_items [] d st = (None, st)"
| "write_items ((key, field) # rest) d st =
     (case get_prop d field of
        Inl e \<Rightarrow> (Some e, st)
      | Inr v \<Rightarrow> write_items rest d (AList.update key v st))"

definition save_json :: "(json \<Rightarrow> bool) \<Rightarrow> codec_world \<Rightarrow> js_error option \<times> codec_world" where
  "save_json render w =
     (case write_items saved_keys (store_json w) (local_items w) of
        (Some e, st) \<Rightarrow> (Some e, w\<lparr>local_items := st\<rparr>)
      | (None, st) \<Rightarrow>
          (let w1 = w\<lparr>local_items := st\<rparr>
           in if render (store_json w1) then (None, w1) else (Some RenderError, w1)))"

definition loadBackupData ::
  "(json \<Rightarrow> bool) \<Rightarrow> json option \<Rightarrow> codec_world \<Rightarrow> bool \<times> codec_world" where
  "loadBackupData render parsed w =
     (case parsed of
        None \<Rightarrow> (False, w)
      | Some d \<Rightarrow>
          (case get_prop d ''transactions'' of
             Inl e \<Rightarrow> (False, w)
           | Inr tr \<Rightarrow>
               if \<not> truthy tr then (False, w)
               else
                 (case get_prop d ''accounts'' of
                    Inl e \<Rightarrow> (False, w)
                  | Inr ac \<Rightarrow>
                      if \<not> truthy ac then (False, w)
                      else
                        (case save_json render (w\<lparr>store_json := d\<rparr>) of
                           (None, w1) \<Rightarrow> (True, w1)
                         | (Some e, w1) \<Rightarrow> (False, w1)))))"

definition prop_of :: "json \<Rightarrow> string \<Rightarrow> jsval" where
  "prop_of d k = (case get_prop d k of Inl e \<Rightarrow> Undefined | Inr v \<Rightarrow> v)"

definition is_array :: "jsval \<Rightarrow> bool" where
  "is_array v = (case v of Val (JArr xs) \<Rightarrow> True | _ \<Rightarrow> False)"

lemma get_prop_nonnull: "d \<noteq> JNull \<Longrightarrow> get_prop d k = Inr (prop_of d k)"
  by (cases d) (simp_all add: prop_of_def)

lemma write_items_saved_keys:
  assumes "d \<noteq> JNull"
  shows "\<exists>st. write_items saved_keys d st0 = (None, st)
     \<and> (\<forall>(key, field)\<in>set saved_keys. map_of st key = Some (prop_of d field))"
  using assms
  by (simp add: saved_keys_def get_prop_nonnull update_conv')

lemma loadBackupData_store:
  "store_json (snd (loadBackupData render p w)) = store_json w
   \<or> p = Some (store_json (snd (loadBackupData render p w)))"
  by (auto simp: loadBackupData_def save_json_def Let_def
      split: option.splits sum.splits if_splits prod.splits)


definition ex_codec :: codec_world where
  "ex_codec = \<lparr>store_json = JObj [(''transactions'', JArr []),
                                   (''accounts'', JArr [JObj [(''id'', JStr ''cash-1'')]])],
               local_items = []\<rparr>"

definition renders_empty_accounts :: "json \<Rightarrow> bool" where
  \<comment> \<open>the accounts view maps over \<^verbatim>\<open>Store.data.accounts\<close> and, when that list is empty,
      reads nothing else of the store\<close>
  "renders_empty_accounts d = (get_prop d ''accounts'' = Inr (Val (JArr [])))"


definition falsy_json :: "json \<Rightarrow> bool" where
  "falsy_json v = (v = JNull \<or> v = JBool False \<or> v = JNum 0 \<or> v = JStr [])"

definition lacks_field :: "json \<Rightarrow> string \<Rightarrow> bool" where
  "lacks_field d k =
     (case d of
        JObj kvs \<Rightarrow> (case map_of (rev kvs) k of None \<Rightarrow> True | Some v \<Rightarrow> falsy_json v)
      | _ \<Rightarrow> True)"

definition render_fails :: "json \<Rightarrow> bool" where
  "render_fails d = False"

definition ex_stored :: codec_world where
  "ex_stored = \<lparr>store_json = JObj [(''transactions'', JArr []), (''accounts'', JArr [])],
                local_items = [(''st_accounts'', Val (JArr [])),
                               (''theme'', Val (JStr ''dark''))]\<rparr>"

definition ex_blob :: json where
  "ex_blob = JObj [(''transactions'', JStr ''x''), (''accounts'', JArr [])]"

definition ex_backup :: json where
  "ex_backup =
     JObj [(''transactions'', JArr [JObj [(''id'', JStr ''t1'')]]),
           (''customCategories'', JArr [JStr ''Transporte'']),
           (''homeCategories'', JArr [JStr ''Luz'']),
           (''accounts'', JArr [JObj [(''id'', JStr ''a1'')]]),
           (''recurring'', JArr [JObj [(''id'', JStr ''r1'')]])]"

lemma truthy_falsy_json: "truthy (Val v) \<longleftrightarrow> \<not> falsy_json v"
  by (cases v) (auto simp: falsy_json_def)

lemma get_prop_lacks_field:
  assumes "lacks_field d k"
  shows "get_prop d k = Inl TypeError \<or> (\<exists>v. get_prop d k = Inr v \<and> \<not> truthy v)"
proof (cases d)
  case (JObj kvs)
  show ?thesis
  proof (cases "map_of (rev kvs) k")
    case None
    then show ?thesis
      using JObj by simp
  next
    case (Some v)
    then have "falsy_json v"
      using assms JObj by (simp add: lacks_field_def)
    then show ?thesis
      using JObj Some by (simp add: truthy_falsy_json)
  qed
qed simp_all

lemma loadBackupData_refuses:
  assumes "get_prop d k = Inl TypeError \<or> (\<exists>v. get_prop d k = Inr v \<and> \<not> truthy v)"
    and "k = ''transactions'' \<or> k = ''accounts''"
  shows "loadBackupData render (Some d) w = (False, w)"
  using assms
  by (cases d) (auto simp: loadBackupData_def split: sum.splits option.splits)

lemma write_items_five:
  assumes "d \<noteq> JNull"
  shows "\<exists>st. write_items saved_keys d st0 = (None, st)
     \<and> map_of st ''st_transactions'' = Some (prop_of d ''transactions'')
     \<and> map_of st ''st_customCategories'' = Some (prop_of d ''customCategories'')
     \<and> map_of st ''st_homeCategories'' = Some (prop_of d ''homeCategories'')
     \<and> map_of st ''st_accounts'' = Some (prop_of d ''accounts'')
     \<and> map_of st ''st_recurring'' = Some (prop_of d ''recurring'')
     \<and> (\<forall>k. k \<notin> {''st_transactions'', ''st_customCategories'', ''st_homeCategories'',
                   ''st_accounts'', ''st_recurring''} \<longrightarrow> map_of st k = map_of st0 k)"
  using assms
  by (simp add: saved_keys_def get_prop_nonnull update_conv')

lemma loadBackupData_success:
  assumes "fst (loadBackupData render p w)"
  shows "\<exists>d st. p = Some d \<and> render d
     \<and> write_items saved_keys d (local_items w) = (None, st)
     \<and> snd (loadBackupData render p w) = w\<lparr>store_json := d, local_items := st\<rparr>"
proof -
  from assms obtain d where p: "p = Some d"
    by (cases p) (simp_all add: loadBackupData_def)
  have nn: "d \<noteq> JNull"
    using assms p by (auto simp: loadBackupData_def)
  obtain st where st: "write_items saved_keys d (local_items w) = (None, st)"
    using write_items_five [OF nn] by blast
  have "snd (loadBackupData render p w) = w\<lparr>store_json := d, local_items := st\<rparr>" "render d"
    using assms p st
    by (auto simp: loadBackupData_def save_json_def Let_def split: sum.splits if_splits)
  then show ?thesis
    using p st by blast
qed

text \<open>
  Claim C5, as stated: \<open>loadBackupData\<close> returns false and leaves the store unchanged
  whenever the parsed value lacks a \<open>transactions\<close> collection. In the blob
  \<^verbatim>\<open>{"transactions": "x", "accounts": []}\<close> the \<open>transactions\<close> field is a string and no
  collection. When the re-render that ends \<^verbatim>\<open>save()\<close> completes on it, the call
  returns true and the blob is the store; when the re-render throws, the call returns
  false and the blob is the store all the same, with the storage written.
\<close>

theorem loadBackupData_accepts_non_collection:
  "\<not> is_array (prop_of ex_blob ''transactions'')
   \<and> loadBackupData renders_empty_accounts (Some ex_blob) ex_codec
       = (True, \<lparr>store_json = ex_blob,
                 local_items = [(''st_transactions'', Val (JStr ''x'')),
                                (''st_customCategories'', Undefined),
                                (''st_homeCategories'', Undefined),
                                (''st_accounts'', Val (JArr [])),
                                (''st_recurring'', Undefined)]\<rparr>)
   \<and> \<not> fst (loadBackupData render_fails (Some ex_blob) ex_codec)
   \<and> store_json (snd (loadBackupData render_fails (Some ex_blob) ex_codec)) = ex_blob
   \<and> store_json ex_codec \<noteq> ex_blob
   \<and> local_items (snd (loadBackupData render_fails (Some ex_blob) ex_codec))
       \<noteq> local_items ex_codec"
  by code_simp

text \<open>
  Claim C5, amended. \<open>loadBackupData\<close> returns false and leaves the store and the
  storage as they were when the blob does not parse, or when the \<open>transactions\<close> or the
  \<open>accounts\<close> field of the parsed value is absent or falsy (\<^verbatim>\<open>null\<close>, \<^verbatim>\<open>false\<close>, \<^verbatim>\<open>0\<close>,
  the empty string), a parsed value that is no object having no fields. When it returns
  true, the store is the parsed value, whole; the items \<^verbatim>\<open>st_transactions\<close>,
  \<^verbatim>\<open>st_customCategories\<close>, \<^verbatim>\<open>st_homeCategories\<close>, \<^verbatim>\<open>st_accounts\<close> and \<^verbatim>\<open>st_recurring\<close>
  of the storage hold its fields \<open>transactions\<close>, \<open>customCategories\<close>,
  \<open>homeCategories\<close>, \<open>accounts\<close> and \<open>recurring\<close>, and every other item of the storage
  is as before. In every case the store is either the old one or the parsed value,
  never a mixture.
\<close>

theorem loadBackupData_refuses_or_replaces:
  "loadBackupData render None w = (False, w)
   \<and> (lacks_field d ''transactions'' \<or> lacks_field d ''accounts''
        \<longrightarrow> loadBackupData render (Some d) w = (False, w))
   \<and> (fst (loadBackupData render p w)
        \<longrightarrow> p = Some (store_json (snd (loadBackupData render p w)))
          \<and> map_of (local_items (snd (loadBackupData render p w))) ''st_transactions''
              = Some (prop_of (store_json (snd (loadBackupData render p w))) ''transactions'')
          \<and> map_of (local_items (snd (loadBackupData render p w))) ''st_customCategories''
              = Some (prop_of (store_json (snd (loadBackupData render p w))) ''customCategories'')
          \<and> map_of (local_items (snd (loadBackupData render p w))) ''st_homeCategories''
              = Some (prop_of (store_json (snd (loadBackupData render p w))) ''homeCategories'')
          \<and> map_of (local_items (snd (loadBackupData render p w))) ''st_accounts''
              = Some (prop_of (store_json (snd (loadBackupData render p w))) ''accounts'')
          \<and> map_of (local_items (snd (loadBackupData render p w))) ''st_recurring''
              = Some (prop_of (store_json (snd (loadBackupData render p w))) ''recurring'')
          \<and> (\<forall>k. k \<notin> {''st_transactions'', ''st_customCategories'', ''st_homeCategories'',
                        ''st_accounts'', ''st_recurring''}
                 \<longrightarrow> map_of (local_items (snd (loadBackupData render p w))) k
                     = map_of (local_items w) k))
   \<and> (store_json (snd (loadBackupData render p w)) = store_json w
        \<or> p = Some (store_json (snd (loadBackupData render p w))))"
proof (intro conjI impI)
  show "loadBackupData render None w = (False, w)"
    by (simp add: loadBackupData_def)
next
  assume "lacks_field d ''transactions'' \<or> lacks_field d ''accounts''"
  then show "loadBackupData render (Some d) w = (False, w)"
    using get_prop_lacks_field [of d "''transactions''"] get_prop_lacks_field [of d "''accounts''"]
      loadBackupData_refuses [of d "''transactions''" render w]
      loadBackupData_refuses [of d "''accounts''" render w]
    by blast
next
  assume t: "fst (loadBackupData render p w)"
  then obtain d st where s: "p = Some d"
    "write_items saved_keys d (local_items w) = (None, st)"
    "snd (loadBackupData render p w) = w\<lparr>store_json := d, local_items := st\<rparr>"
    using loadBackupData_success by blast
  have nn: "d \<noteq> JNull"
    using t s(1) by (auto simp: loadBackupData_def)
  obtain st' where f: "write_items saved_keys d (local_items w) = (None, st')"
    "map_of st' ''st_transactions'' = Some (prop_of d ''transactions'')"
    "map_of st' ''st_customCategories'' = Some (prop_of d ''customCategories'')"
    "map_of st' ''st_homeCategories'' = Some (prop_of d ''homeCategories'')"
    "map_of st' ''st_accounts'' = Some (prop_of d ''accounts'')"
    "map_of st' ''st_recurring'' = Some (prop_of d ''recurring'')"
    "\<forall>k. k \<notin> {''st_transactions'', ''st_customCategories'', ''st_homeCategories'',
              ''st_accounts'', ''st_recurring''} \<longrightarrow> map_of st' k = map_of (local_items w) k"
    using write_items_five [OF nn, of "local_items w"] by blast
  have e: "st' = st"
    using f(1) s(2) by simp
  show "p = Some (store_json (snd (loadBackupData render p w)))"
    using s by simp
  show "map_of (local_items (snd (loadBackupData render p w))) ''st_transactions''
      = Some (prop_of (store_json (snd (loadBackupData render p w))) ''transactions'')"
    using s(3) f(2) e by simp
  show "map_of (local_items (snd (loadBackupData render p w))) ''st_customCategories''
      = Some (prop_of (store_json (snd (loadBackupData render p w))) ''customCategories'')"
    using s(3) f(3) e by simp
  show "map_of (local_items (snd (loadBackupData render p w))) ''st_homeCategories''
      = Some (prop_of (store_json (snd (loadBackupData render p w))) ''homeCategories'')"
    using s(3) f(4) e by simp
  show "map_of (local_items (snd (loadBackupData render p w))) ''st_accounts''
      = Some (prop_of (store_json (snd (loadBackupData render p w))) ''accounts'')"
    using s(3) f(5) e by simp
  show "map_of (local_items (snd (loadBackupData render p w))) ''st_recurring''
      = Some (prop_of (store_json (snd (loadBackupData render p w))) ''recurring'')"
    using s(3) f(6) e by simp
  show "\<forall>k. k \<notin> {''st_transactions'', ''st_customCategories'', ''st_homeCategories'',
                ''st_accounts'', ''st_recurring''}
         \<longrightarrow> map_of (local_items (snd (loadBackupData render p w))) k
             = map_of (local_items w) k"
    using s(3) f(7) e by simp
next
  show "store_json (snd (loadBackupData render p w)) = store_json w
        \<or> p = Some (store_json (snd (loadBackupData render p w)))"
    by (rule loadBackupData_store)
qed

text \<open>
  A blob whose \<open>accounts\<close> field is \<^verbatim>\<open>null\<close> is refused and nothing changes; a backup
  with the five fields replaces the store, each of the five items holds its field, and
  an item that \<^verbatim>\<open>save()\<close> does not write stays.
\<close>

theorem loadBackupData_refuses_or_replaces_witness:
  "lacks_field (JObj [(''transactions'', JArr []), (''accounts'', JNull)]) ''accounts''
   \<and> loadBackupData (\<lambda>d. True)
        (Some (JObj [(''transactions'', JArr []), (''accounts'', JNull)])) ex_stored
       = (False, ex_stored)
   \<and> fst (loadBackupData (\<lambda>d. True) (Some ex_backup) ex_stored)
   \<and> store_json (snd (loadBackupData (\<lambda>d. True) (Some ex_backup) ex_stored)) = ex_backup
   \<and> map_of (local_items (snd (loadBackupData (\<lambda>d. True) (Some ex_backup) ex_stored)))
         ''st_transactions'' = Some (Val (JArr [JObj [(''id'', JStr ''t1'')]]))
   \<and> map_of (local_items (snd (loadBackupData (\<lambda>d. True) (Some ex_backup) ex_stored)))
         ''st_customCategories'' = Some (Val (JArr [JStr ''Transporte'']))
   \<and> map_of (local_items (snd (loadBackupData (\<lambda>d. True) (Some ex_backup) ex_stored)))
         ''st_homeCategories'' = Some (Val (JArr [JStr ''Luz'']))
   \<and> map_of (local_items (snd (loadBackupData (\<lambda>d. True) (Some ex_backup) ex_stored)))
         ''st_accounts'' = Some (Val (JArr [JObj [(''id'', JStr ''a1'')]]))
   \<and> map_of (local_items (snd (loadBackupData (\<lambda>d. True) (Some ex_backup) ex_stored)))
         ''st_recurring'' = Some (Val (JArr [JObj [(''id'', JStr ''r1'')]]))
   \<and> map_of (local_items (snd (loadBackupData (\<lambda>d. True) (Some ex_backup) ex_stored)))
         ''theme'' = Some (Val (JStr ''dark''))"
proof -
  let ?d1 = "JObj [(''transactions'', JArr []), (''accounts'', JNull)]"
  let ?r = "loadBackupData (\<lambda>d. True) (Some ex_backup) ex_stored"
  note inst = loadBackupData_refuses_or_replaces [of "\<lambda>d. True" ex_stored ?d1 "Some ex_backup"]
  have h1: "lacks_field ?d1 ''accounts''"
    by (simp add: lacks_field_def falsy_json_def)
  have a: "loadBackupData (\<lambda>d. True) (Some ?d1) ex_stored = (False, ex_stored)"
    by (rule inst [THEN conjunct2, THEN conjunct1, THEN mp, OF disjI2, OF h1])
  have h2: "fst ?r"
    by (simp add: loadBackupData_def save_json_def saved_keys_def Let_def ex_backup_def)
  note b = inst [THEN conjunct2, THEN conjunct2, THEN conjunct1, THEN mp, OF h2]
  have c: "store_json (snd ?r) = ex_backup"
    using b [THEN conjunct1] by simp
  have p: "prop_of ex_backup ''transactions'' = Val (JArr [JObj [(''id'', JStr ''t1'')]])"
    "prop_of ex_backup ''customCategories'' = Val (JArr [JStr ''Transporte''])"
    "prop_of ex_backup ''homeCategories'' = Val (JArr [JStr ''Luz''])"
    "prop_of ex_backup ''accounts'' = Val (JArr [JObj [(''id'', JStr ''a1'')]])"
    "prop_of ex_backup ''recurring'' = Val (JArr [JObj [(''id'', JStr ''r1'')]])"
    by (simp_all add: prop_of_def ex_backup_def)
  have k1: "map_of (local_items (snd ?r)) ''st_transactions''
      = Some (Val (JArr [JObj [(''id'', JStr ''t1'')]]))"
    using b [THEN conjunct2, THEN conjunct1] by (simp only: c p)
  have k2: "map_of (local_items (snd ?r)) ''st_customCategories''
      = Some (Val (JArr [JStr ''Transporte'']))"
    using b [THEN conjunct2, THEN conjunct2, THEN conjunct1] by (simp only: c p)
  have k3: "map_of (local_items (snd ?r)) ''st_homeCategories'' = Some (Val (JArr [JStr ''Luz'']))"
    using b [THEN conjunct2, THEN conjunct2, THEN conjunct2, THEN conjunct1] by (simp only: c p)
  have k4: "map_of (local_items (snd ?r)) ''st_accounts''
      = Some (Val (JArr [JObj [(''id'', JStr ''a1'')]]))"
    using b [THEN conjunct2, THEN conjunct2, THEN conjunct2, THEN conjunct2, THEN conjunct1]
    by (simp only: c p)
  have k5: "map_of (local_items (snd ?r)) ''st_recurring''
      = Some (Val (JArr [JObj [(''id'', JStr ''r1'')]]))"
    using b [THEN conjunct2, THEN conjunct2, THEN conjunct2, THEN conjunct2, THEN conjunct2,
        THEN conjunct1]
    by (simp only: c p)
  have n: "''theme'' \<notin> {''st_transactions'', ''st_customCategories'', ''st_homeCategories'',
            ''st_accounts'', ''st_recurring''}"
    by simp
  have "map_of (local_items (snd ?r)) ''theme'' = map_of (local_items ex_stored) ''theme''"
    by (rule b [THEN conjunct2, THEN conjunct2, THEN conjunct2, THEN conjunct2, THEN conjunct2,
        THEN conjunct2, THEN spec, THEN mp, OF n])
  then have k6: "map_of (local_items (snd ?r)) ''theme'' = Some (Val (JStr ''dark''))"
    by (simp add: ex_stored_def)
  show ?thesis
    by (intro conjI h1 a h2 c k1 k2 k3 k4 k5 k6)
qed

text \<open>
  Claim C10. The check of \<open>loadBackupData\<close> is the truthiness of the two fields: a
  parsed value whose \<open>transactions\<close> and \<open>accounts\<close> are truthy, whatever their shape,
  becomes the whole store, and the call returns true when the re-render that follows
  the save completes on it.
\<close>

theorem loadBackupData_checks_truthiness_only:
  assumes "get_prop d ''transactions'' = Inr tr" and "truthy tr"
    and "get_prop d ''accounts'' = Inr ac" and "truthy ac"
    and "render d"
  shows "fst (loadBackupData render (Some d) w)
       \<and> store_json (snd (loadBackupData render (Some d) w)) = d"
proof -
  have "d \<noteq> JNull"
    using assms(1) by auto
  then obtain st where "write_items saved_keys d (local_items w) = (None, st)"
    using write_items_saved_keys by blast
  then show ?thesis
    using assms by (simp add: loadBackupData_def save_json_def Let_def)
qed

text \<open>
  The blob \<^verbatim>\<open>{"transactions": "x", "accounts": []}\<close>, imported while the accounts view
  is shown: \<open>transactions\<close> is a string, not a list, and the blob becomes the store.
\<close>

theorem loadBackupData_checks_truthiness_only_witness:
  "get_prop (JObj [(''transactions'', JStr ''x''), (''accounts'', JArr [])]) ''transactions''
     = Inr (Val (JStr ''x''))
   \<and> \<not> is_array (Val (JStr ''x'')) \<and> truthy (Val (JStr ''x''))
   \<and> get_prop (JObj [(''transactions'', JStr ''x''), (''accounts'', JArr [])]) ''accounts''
     = Inr (Val (JArr []))
   \<and> truthy (Val (JArr []))
   \<and> renders_empty_accounts (JObj [(''transactions'', JStr ''x''), (''accounts'', JArr [])])
   \<and> fst (loadBackupData renders_empty_accounts
        (Some (JObj [(''transactions'', JStr ''x''), (''accounts'', JArr [])])) ex_codec)
   \<and> store_json (snd (loadBackupData renders_empty_accounts
        (Some (JObj [(''transactions'', JStr ''x''), (''accounts'', JArr [])])) ex_codec))
       = JObj [(''transactions'', JStr ''x''), (''accounts'', JArr [])]"
proof -
  let ?d = "JObj [(''transactions'', JStr ''x''), (''accounts'', JArr [])]"
  have h: "get_prop ?d ''transactions'' = Inr (Val (JStr ''x''))" "truthy (Val (JStr ''x''))"
    "get_prop ?d ''accounts'' = Inr (Val (JArr []))" "truthy (Val (JArr []))"
    "renders_empty_accounts ?d"
    by (simp_all add: renders_empty_accounts_def)
  have n: "\<not> is_array (Val (JStr ''x''))"
    by (simp add: is_array_def)
  show ?thesis
    using h n loadBackupData_checks_truthiness_only
      [of ?d "Val (JStr ''x'')" "Val (JArr [])" renders_empty_accounts ex_codec]
    by (intro conjI) simp_all
qed

end
